theory Spec2Isabelle
  imports Main "HOL-Library.Word" "HOL-Library.Signed_Division"
begin

section \<open>Data model\<close>

text \<open>
  A \<open>Uint8Array\<close> is a list of 8-bit words. A JavaScript string is a list of
  characters (code units below 256). A \<open>bigint\<close> is an \<open>int\<close>. Every
  \<open>throw\<close> of the source is a value \<open>Inl e\<close> of the result type.
\<close>

type_synonym byte = "8 word"

datatype error =
    InvalidNonce            \<comment> \<open>"Invalid nonce generated"\<close>
  | SignatureSZero          \<comment> \<open>"Invalid signature: s is zero"\<close>
  | NoInverse               \<comment> \<open>"Modular inverse does not exist"\<close>
  | NonceMismatch           \<comment> \<open>"Signatures do not use the same nonce (r values are different)"\<close>
  | IdenticalSignatures     \<comment> \<open>"Signatures are identical"\<close>
  | DegenerateSignatures    \<comment> \<open>"Cannot extract private key: s1 equals s2"\<close>
  | RangeError              \<comment> \<open>raised by the JavaScript runtime: bigint division by zero, typed-array \<open>set\<close> out of bounds\<close>
  | LibraryError            \<comment> \<open>anything thrown inside the curve library\<close>

text \<open>
  The interface \<open>EOTSSignature\<close> of types.ts. Its fields \<open>r\<close> and \<open>s\<close> carry a
  prefix here, since \<open>r\<close> and \<open>s\<close> are also local variables of the source.
\<close>

record EOTSSignature =
  sig_r :: "byte list"
  sig_s :: "byte list"

text \<open>A parameter of type \<open>Uint8Array | string\<close>.\<close>

datatype bytes_or_hex = Bytes "byte list" | Hex string

section \<open>utils.ts\<close>

subsection \<open>The runtime functions the codec calls\<close>

text \<open>
  \<open>toString(16)\<close> of a non-negative number: lowercase digits, most significant first,
  no leading zero, \<open>"0"\<close> for zero.
\<close>

definition digitChar :: "nat \<Rightarrow> char" where
  "digitChar d = ''0123456789abcdef'' ! d"

fun toString16 :: "nat \<Rightarrow> string" where
  "toString16 n = (if n < 16 then [digitChar n] else toString16 (n div 16) @ [digitChar (n mod 16)])"

text \<open>\<open>toString(16)\<close> of a bigint: a minus sign before the digits of a negative value.\<close>

definition bigintToString16 :: "int \<Rightarrow> string" where
  "bigintToString16 num =
     (if num < 0 then CHR ''-'' # toString16 (nat (- num)) else toString16 (nat num))"

text \<open>\<open>str.padStart(targetLength, "0")\<close>.\<close>

definition padStart :: "string \<Rightarrow> nat \<Rightarrow> string" where
  "padStart str targetLength = replicate (targetLength - length str) CHR ''0'' @ str"

text \<open>
  \<open>parseInt(str, 16)\<close>: leading white space is skipped, then an optional sign, then an
  optional \<open>0x\<close> or \<open>0X\<close>, then the longest run of hexadecimal digits is read; with no
  digit there the result is \<open>NaN\<close>, here \<open>None\<close>.
\<close>

definition isWhiteSpace :: "char \<Rightarrow> bool" where
  "isWhiteSpace c = (of_char c \<in> {9, 10, 11, 12, 13, 32, 160 :: nat})"

definition hexDigitVal :: "char \<Rightarrow> nat option" where
  "hexDigitVal c =
     (let v = (of_char c :: nat) in
      if 48 \<le> v \<and> v \<le> 57 then Some (v - 48)
      else if 97 \<le> v \<and> v \<le> 102 then Some (v - 87)
      else if 65 \<le> v \<and> v \<le> 70 then Some (v - 55)
      else None)"

definition isHexDigit :: "char \<Rightarrow> bool" where
  "isHexDigit c = (hexDigitVal c \<noteq> None)"

definition digitsValue :: "string \<Rightarrow> nat" where
  "digitsValue ds = foldl (\<lambda>acc c. acc * 16 + the (hexDigitVal c)) 0 ds"

definition parseInt16 :: "string \<Rightarrow> int option" where
  "parseInt16 str =
     (let s1 = dropWhile isWhiteSpace str;
          neg = (s1 \<noteq> [] \<and> hd s1 = CHR ''-'');
          s2 = (if s1 \<noteq> [] \<and> (hd s1 = CHR ''+'' \<or> hd s1 = CHR ''-'') then tl s1 else s1);
          s3 = (if take 2 s2 = ''0x'' \<or> take 2 s2 = ''0X'' then drop 2 s2 else s2);
          z = takeWhile isHexDigit s3
      in if z = [] then None
         else Some (if neg then - int (digitsValue z) else int (digitsValue z)))"

text \<open>Storing a number into a \<open>Uint8Array\<close> element: \<open>NaN\<close> becomes 0, an integer is taken modulo 256.\<close>

definition toUint8 :: "int option \<Rightarrow> byte" where
  "toUint8 v = (case v of None \<Rightarrow> 0 | Some i \<Rightarrow> word_of_int i)"

subsection \<open>hexToBytes, bytesToHex, isValidHex\<close>

text \<open>The loop of \<open>hexToBytes\<close>: one byte for each two characters.\<close>

fun hexPairs :: "string \<Rightarrow> byte list" where
  "hexPairs (a # b # rest) = toUint8 (parseInt16 [a, b]) # hexPairs rest"
| "hexPairs _ = []"

definition hexToBytes :: "string \<Rightarrow> byte list" where
  "hexToBytes hex =
     (let hex1 = (if take 2 hex = ''0x'' then drop 2 hex else hex);
          hex2 = (if length hex1 mod 2 \<noteq> 0 then CHR ''0'' # hex1 else hex1)
      in hexPairs hex2)"

definition bytesToHex :: "byte list \<Rightarrow> string" where
  "bytesToHex bytes = concat (map (\<lambda>b. padStart (toString16 (unat b)) 2) bytes)"

text \<open>The characters \<open>toString(16)\<close> produces.\<close>

definition lowerHexChars :: "char set" where
  "lowerHexChars = set ''0123456789abcdef''"

text \<open>\<open>expectedLength\<close> is optional, and \<open>if (expectedLength)\<close> is false for 0 as well.\<close>

definition isValidHex :: "string \<Rightarrow> nat option \<Rightarrow> bool" where
  "isValidHex hex expectedLength =
     (let cleanHex = (if take 2 hex = ''0x'' then drop 2 hex else hex);
          isValid = list_all isHexDigit cleanHex
      in case expectedLength of
           Some l \<Rightarrow>
             (if l \<noteq> 0 then isValid \<and> length cleanHex = l * 2
              else isValid \<and> length cleanHex > 0 \<and> length cleanHex mod 2 = 0)
         | None \<Rightarrow> isValid \<and> length cleanHex > 0 \<and> length cleanHex mod 2 = 0)"

section \<open>eots.ts\<close>

text \<open>
  The curve library supplies the group order \<open>CURVE.n\<close>, the point multiplication
  \<open>getPublicKey\<close>, the hash \<open>sha256\<close> and the verification routine \<open>verify\<close>. They
  are parameters of the functions that use them, under the names the source gives them.
\<close>

definition toBytes :: "bytes_or_hex \<Rightarrow> byte list" where
  "toBytes v = (case v of Hex h \<Rightarrow> hexToBytes h | Bytes b \<Rightarrow> b)"

definition bytesToNumber :: "byte list \<Rightarrow> int" where
  "bytesToNumber bytes = foldl (\<lambda>result byte. push_bit 8 result + uint byte) 0 bytes"

definition numberToBytes :: "int \<Rightarrow> nat \<Rightarrow> byte list" where
  "numberToBytes num len = hexToBytes (padStart (bigintToString16 num) (len * 2))"

text \<open>
  \<open>mod\<close>: the bigint remainder \<open>%\<close> truncates towards zero and throws on a zero
  divisor.
\<close>

definition mod_eots :: "int \<Rightarrow> int \<Rightarrow> error + int" where
  "mod_eots a b =
     (if b = 0 then Inl RangeError
      else let result = a smod b in Inr (if result \<ge> 0 then result else result + b))"

text \<open>
  The loop of \<open>modInverse\<close>, on the state \<open>(old_r, r, old_s, s)\<close>; the bigint
  division \<open>/\<close> truncates towards zero. It returns the final \<open>(old_r, old_s)\<close>.
\<close>

function modInverse_loop :: "int \<Rightarrow> int \<Rightarrow> int \<Rightarrow> int \<Rightarrow> int \<times> int" where
  "modInverse_loop old_r r old_s s =
     (if r \<noteq> 0
      then let quotient = old_r sdiv r
           in modInverse_loop r (old_r - quotient * r) s (old_s - quotient * s)
      else (old_r, old_s))"
  by pat_completeness auto
termination
proof (relation "measure (\<lambda>(old_r, r, old_s, s). nat \<bar>r\<bar>)")
  fix old_r r old_s s quotient :: int
  assume "r \<noteq> 0" and q: "quotient = old_r sdiv r"
  have "old_r - quotient * r = old_r smod r"
    unfolding q by (rule minus_sdiv_mult_eq_smod)
  moreover have "\<bar>old_r smod r\<bar> < \<bar>r\<bar>"
    using smod_int_range [OF \<open>r \<noteq> 0\<close>, of old_r] by auto
  ultimately show "((r, old_r - quotient * r, s, old_s - quotient * s), (old_r, r, old_s, s))
      \<in> measure (\<lambda>(old_r, r, old_s, s). nat \<bar>r\<bar>)"
    using \<open>r \<noteq> 0\<close> by simp
qed simp

declare modInverse_loop.simps [simp del]

definition modInverse :: "int \<Rightarrow> int \<Rightarrow> error + int" where
  "modInverse a m =
     (case (if a < 0 then mod_eots a m else Inr a) of
        Inl e \<Rightarrow> Inl e
      | Inr a' \<Rightarrow>
          (case modInverse_loop a' m 1 0 of
             (old_r, old_s) \<Rightarrow>
               if old_r > 1 then Inl NoInverse
               else Inr (if old_s < 0 then old_s + m else old_s)))"

text \<open>\<open>arr.slice(start, end)\<close> and \<open>target.set(source, offset)\<close> of a \<open>Uint8Array\<close>.\<close>

definition typedArraySlice :: "byte list \<Rightarrow> nat \<Rightarrow> nat \<Rightarrow> byte list" where
  "typedArraySlice arr start end' = take (end' - start) (drop start arr)"

definition typedArraySet :: "byte list \<Rightarrow> byte list \<Rightarrow> nat \<Rightarrow> error + byte list" where
  "typedArraySet target source offset =
     (if offset + length source > length target then Inl RangeError
      else Inr (take offset target @ source @ drop (offset + length source) target))"

text \<open>
  The nonce \<open>k\<close> of \<open>signEOTS\<close> (lines 80 to 89). The test \<open>if (nonce)\<close> is false for an
  absent nonce and for the empty string; then the nonce is the hash of the private key bytes
  followed by the digest bytes.
\<close>

definition signEOTS_nonce ::
  "(byte list \<Rightarrow> byte list) \<Rightarrow> byte list \<Rightarrow> byte list \<Rightarrow> bytes_or_hex option \<Rightarrow> byte list" where
  "signEOTS_nonce sha256 privKey msgHash nonce =
     (case nonce of
        Some (Bytes b) \<Rightarrow> b
      | Some (Hex h) \<Rightarrow> if h \<noteq> [] then hexToBytes h else sha256 (privKey @ msgHash)
      | None \<Rightarrow> sha256 (privKey @ msgHash))"

text \<open>
  \<open>signEOTS\<close>. \<open>getPublicKeySecp\<close> takes the scalar bytes and the compression flag to the
  encoded point \<open>k\<cdot>G\<close>, or throws.
\<close>

definition signEOTS ::
  "int \<Rightarrow> (byte list \<Rightarrow> bool \<Rightarrow> error + byte list) \<Rightarrow> (byte list \<Rightarrow> byte list) \<Rightarrow>
   bytes_or_hex \<Rightarrow> bytes_or_hex \<Rightarrow> bytes_or_hex option \<Rightarrow> error + EOTSSignature" where
  "signEOTS CURVE_n getPublicKeySecp sha256 privateKey messageHash nonce =
     (let privKey = toBytes privateKey;
          msgHash = toBytes messageHash;
          k = signEOTS_nonce sha256 privKey msgHash nonce;
          kNum = bytesToNumber k
      in if kNum \<ge> CURVE_n \<or> kNum = 0 then Inl InvalidNonce
         else
           case getPublicKeySecp k False of
             Inl e \<Rightarrow> Inl e
           | Inr kPoint \<Rightarrow>
               let r = typedArraySlice kPoint 1 33;
                   rNum = bytesToNumber r;
                   hashNum = bytesToNumber msgHash;
                   privKeyNum = bytesToNumber privKey
               in case modInverse kNum CURVE_n of
                    Inl e \<Rightarrow> Inl e
                  | Inr kInv \<Rightarrow>
                      (case mod_eots (kInv * (hashNum + rNum * privKeyNum)) CURVE_n of
                         Inl e \<Rightarrow> Inl e
                       | Inr s \<Rightarrow>
                           if s = 0 then Inl SignatureSZero
                           else Inr \<lparr>sig_r = r, sig_s = numberToBytes s 32\<rparr>))"

text \<open>
  \<open>verifyEOTS\<close>. The library's \<open>verify\<close> takes the signature bytes, the message hash and
  the public key; it returns a boolean or throws. \<open>verifyEOTS_try\<close> is the body of the outer
  \<open>try\<close>, and \<open>verifyEOTS\<close> adds its \<open>catch\<close>.
\<close>

definition verifyEOTS_try ::
  "int \<Rightarrow> (byte list \<Rightarrow> byte list \<Rightarrow> byte list \<Rightarrow> error + bool) \<Rightarrow>
   bytes_or_hex \<Rightarrow> bytes_or_hex \<Rightarrow> EOTSSignature \<Rightarrow> error + bool" where
  "verifyEOTS_try CURVE_n verify publicKey messageHash signature =
     (let pubKey = toBytes publicKey;
          msgHash = toBytes messageHash;
          r = bytesToNumber (sig_r signature);
          s = bytesToNumber (sig_s signature)
      in if r \<le> 0 \<or> r \<ge> CURVE_n \<or> s \<le> 0 \<or> s \<ge> CURVE_n then Inr False
         else
           let sBytes = numberToBytes s 32;
               rBytes = numberToBytes r 32;
               derSig = replicate 64 0
           in case typedArraySet derSig rBytes 0 of
                Inl e \<Rightarrow> Inl e
              | Inr derSig1 \<Rightarrow>
                  (case typedArraySet derSig1 sBytes 32 of
                     Inl e \<Rightarrow> Inl e
                   | Inr derSig2 \<Rightarrow>
                       (case verify derSig2 msgHash pubKey of
                          Inl e \<Rightarrow> Inr True
                        | Inr b \<Rightarrow> Inr b)))"

definition verifyEOTS ::
  "int \<Rightarrow> (byte list \<Rightarrow> byte list \<Rightarrow> byte list \<Rightarrow> error + bool) \<Rightarrow>
   bytes_or_hex \<Rightarrow> bytes_or_hex \<Rightarrow> EOTSSignature \<Rightarrow> bool" where
  "verifyEOTS CURVE_n verify publicKey messageHash signature =
     (case verifyEOTS_try CURVE_n verify publicKey messageHash signature of
        Inl e \<Rightarrow> False
      | Inr b \<Rightarrow> b)"

text \<open>\<open>extractPrivateKey\<close>.\<close>

definition extractPrivateKey ::
  "int \<Rightarrow> EOTSSignature \<Rightarrow> EOTSSignature \<Rightarrow> bytes_or_hex \<Rightarrow> bytes_or_hex \<Rightarrow> error + byte list" where
  "extractPrivateKey CURVE_n sig1 sig2 hash1 hash2 =
     (let msgHash1 = toBytes hash1;
          msgHash2 = toBytes hash2;
          r1 = bytesToNumber (sig_r sig1);
          s1 = bytesToNumber (sig_s sig1);
          r2 = bytesToNumber (sig_r sig2);
          s2 = bytesToNumber (sig_s sig2);
          h1 = bytesToNumber msgHash1;
          h2 = bytesToNumber msgHash2
      in if r1 \<noteq> r2 then Inl NonceMismatch
         else if s1 = s2 then Inl IdenticalSignatures
         else
           case mod_eots (s1 - s2) CURVE_n of
             Inl e \<Rightarrow> Inl e
           | Inr sDiff \<Rightarrow>
               if sDiff = 0 then Inl DegenerateSignatures
               else
                 case mod_eots (h1 - h2) CURVE_n of
                   Inl e \<Rightarrow> Inl e
                 | Inr hDiff \<Rightarrow>
                 case modInverse sDiff CURVE_n of
                   Inl e \<Rightarrow> Inl e
                 | Inr sDiffInv \<Rightarrow>
                 case mod_eots (hDiff * sDiffInv) CURVE_n of
                   Inl e \<Rightarrow> Inl e
                 | Inr k \<Rightarrow>
                 case mod_eots (s1 * k - h1) CURVE_n of
                   Inl e \<Rightarrow> Inl e
                 | Inr numerator \<Rightarrow>
                 case modInverse r1 CURVE_n of
                   Inl e \<Rightarrow> Inl e
                 | Inr rInv \<Rightarrow>
                 case mod_eots (numerator * rInv) CURVE_n of
                   Inl e \<Rightarrow> Inl e
                 | Inr privateKey \<Rightarrow> Inr (numberToBytes privateKey 32))"

text \<open>
  What the source relies on for \<open>CURVE.n\<close>: it is a prime (every residue between 0 and
  \<open>n\<close> is invertible) and fits 32 bytes.
\<close>

definition prime_order :: "int \<Rightarrow> bool" where
  "prime_order n \<longleftrightarrow> 1 < n \<and> n < 256 ^ 32 \<and> (\<forall>a. 0 < a \<and> a < n \<longrightarrow> coprime a n)"

section \<open>Concrete library behaviours and inputs\<close>

text \<open>The order of the secp256k1 group, the value of \<open>CURVE.n\<close>, and its 32 bytes.\<close>

definition secp256k1_n :: int where
  "secp256k1_n = 0xFFFFFFFFFFFFFFFFFFFFFFFFFFFFFFFEBAAEDCE6AF48A03BBFD25E8CD0364141"

definition secp256k1_n_bytes :: "byte list" where
  "secp256k1_n_bytes =
     [0xFF, 0xFF, 0xFF, 0xFF, 0xFF, 0xFF, 0xFF, 0xFF, 0xFF, 0xFF, 0xFF, 0xFF, 0xFF, 0xFF, 0xFF, 0xFE,
      0xBA, 0xAE, 0xDC, 0xE6, 0xAF, 0x48, 0xA0, 0x3B, 0xBF, 0xD2, 0x5E, 0x8C, 0xD0, 0x36, 0x41, 0x41]"

text \<open>
  Two behaviours a verification routine can have: a routine that throws on every input and one
  that accepts every input.
\<close>

definition verify_throws :: "byte list \<Rightarrow> byte list \<Rightarrow> byte list \<Rightarrow> error + bool" where
  "verify_throws sg msg pub = Inl LibraryError"

definition verify_accepts :: "byte list \<Rightarrow> byte list \<Rightarrow> byte list \<Rightarrow> error + bool" where
  "verify_accepts sg msg pub = Inr True"

text \<open>
  A small curve of the same family, for concrete runs with a prime order: \<open>y\<^sup>2 = x\<^sup>3 + 7\<close>
  over the field of 163 elements. Its group has the prime order 139 and is generated by
  \<open>G = (2, 34)\<close>. \<open>tiny_points\<close> lists \<open>k\<cdot>G\<close> for the scalars 1, 2, 18 and 36, and
  \<open>tiny_getPublicKey\<close> is the point multiplication on these scalars, in the library's
  encoding (a prefix byte, then 32 bytes for each coordinate). The point \<open>36\<cdot>G = (139, 110)\<close>
  has the group order as its x-coordinate.
\<close>

definition tiny_n :: int where
  "tiny_n = 139"

definition tiny_points :: "(int \<times> byte \<times> byte) list" where
  "tiny_points = [(1, 2, 34), (2, 31, 28), (18, 140, 37), (36, 139, 110)]"

definition tiny_getPublicKey :: "byte list \<Rightarrow> bool \<Rightarrow> error + byte list" where
  "tiny_getPublicKey privKey isCompressed =
     (case map_of tiny_points (bytesToNumber privKey) of
        None \<Rightarrow> Inl LibraryError
      | Some (x, y) \<Rightarrow>
          Inr (if isCompressed then (if even (unat y) then 2 else 3) # replicate 31 0 @ [x]
               else 4 # replicate 31 0 @ [x] @ replicate 31 0 @ [y]))"

text \<open>A hash for runs with an explicit nonce, where its value is not read.\<close>

definition sha256_stub :: "byte list \<Rightarrow> byte list" where
  "sha256_stub msg = replicate 32 0"

text \<open>
  A hash for runs without a nonce: it returns 32 bytes, the last one the sum of the bytes of
  its input.
\<close>

definition sha256_sum :: "byte list \<Rightarrow> byte list" where
  "sha256_sum msg = replicate 31 0 @ [sum_list msg]"

text \<open>
  A point multiplication that throws, as the library's does on a scalar it does not accept
  (the library takes a scalar of 32 bytes; \<open>signEOTS\<close> makes no check of the length of the
  nonce and has no \<open>catch\<close>).
\<close>

definition getPublicKey_throws :: "byte list \<Rightarrow> bool \<Rightarrow> error + byte list" where
  "getPublicKey_throws privKey isCompressed = Inl LibraryError"

text \<open>
  On secp256k1 itself, over the field of \<open>secp256k1_p\<close> elements, the point with the
  x-coordinate \<open>n\<close> and the y-coordinate \<open>y_at_x_n\<close> satisfies the curve equation
  (\<open>point_x_n_on_curve\<close> below). The group is cyclic of order \<open>n\<close>, so this point is
  \<open>k\<cdot>G\<close> for a scalar \<open>k\<close> between 0 and \<open>n\<close>; \<open>getPublicKey_x_n\<close> is the library's point
  multiplication at that scalar. \<open>half_n\<close> is \<open>(n + 1) / 2\<close>, the inverse of 2.
\<close>

definition secp256k1_p :: int where
  "secp256k1_p = 0xFFFFFFFFFFFFFFFFFFFFFFFFFFFFFFFFFFFFFFFFFFFFFFFFFFFFFFFEFFFFFC2F"

definition y_at_x_n :: "byte list" where
  "y_at_x_n =
     [0x98, 0xF6, 0x66, 0x41, 0xCB, 0x0A, 0xE1, 0x77, 0x6B, 0x46, 0x3E, 0xBD, 0xEE, 0x3D, 0x77, 0xFE,
      0x26, 0x58, 0xF0, 0x21, 0xDB, 0x48, 0xE2, 0xC8, 0xAC, 0x7A, 0xB4, 0xC9, 0x2F, 0x83, 0x62, 0x1E]"

definition getPublicKey_x_n :: "byte list \<Rightarrow> bool \<Rightarrow> error + byte list" where
  "getPublicKey_x_n privKey isCompressed =
     Inr (if isCompressed then 2 # secp256k1_n_bytes else 4 # secp256k1_n_bytes @ y_at_x_n)"

definition half_n :: int where
  "half_n = 0x7FFFFFFFFFFFFFFFFFFFFFFFFFFFFFFF5D576E7357A4501DDFE92F46681B20A1"

text \<open>Three hex strings of 63 characters, with the values 2, 3 and 5.\<close>

definition hex63_2 :: string where
  "hex63_2 = ''000000000000000000000000000000000000000000000000000000000000002''"

definition hex63_3 :: string where
  "hex63_3 = ''000000000000000000000000000000000000000000000000000000000000003''"

definition hex63_5 :: string where
  "hex63_5 = ''000000000000000000000000000000000000000000000000000000000000005''"

section \<open>The hex codec\<close>


lemma nat_less_16_cases:
  "d < 16 \<Longrightarrow> d \<in> {0, 1, 2, 3, 4, 5, 6, 7, 8, 9, 10, 11, 12, 13, 14, 15 :: nat}"
  by simp arith

lemma hexDigitVal_digitChar: "d < 16 \<Longrightarrow> hexDigitVal (digitChar d) = Some d"
  by (drule nat_less_16_cases) (auto simp: digitChar_def hexDigitVal_def)

lemma isHexDigit_digitChar: "d < 16 \<Longrightarrow> isHexDigit (digitChar d)"
  by (simp add: isHexDigit_def hexDigitVal_digitChar)

lemma digitChar_lowercase: "d < 16 \<Longrightarrow> digitChar d \<in> lowerHexChars"
  by (drule nat_less_16_cases) (auto simp: digitChar_def lowerHexChars_def)

lemma not_isWhiteSpace_digitChar: "d < 16 \<Longrightarrow> \<not> isWhiteSpace (digitChar d)"
  by (drule nat_less_16_cases) (auto simp: digitChar_def isWhiteSpace_def)

lemma digitChar_not_special:
  "d < 16 \<Longrightarrow> digitChar d \<noteq> CHR ''+'' \<and> digitChar d \<noteq> CHR ''-'' \<and>
     digitChar d \<noteq> CHR ''x'' \<and> digitChar d \<noteq> CHR ''X''"
  by (drule nat_less_16_cases) (auto simp: digitChar_def)

lemma digitChar_0: "digitChar 0 = CHR ''0''"
  by (simp add: digitChar_def)

lemma parseInt16_two_digits:
  assumes "h < 16" "l < 16"
  shows "parseInt16 [digitChar h, digitChar l] = Some (int (h * 16 + l))"
  using assms not_isWhiteSpace_digitChar [of h] digitChar_not_special [of h]
    digitChar_not_special [of l] isHexDigit_digitChar [of h] isHexDigit_digitChar [of l]
  by (simp add: parseInt16_def digitsValue_def hexDigitVal_digitChar)

lemma padStart_byte:
  assumes "n < 256"
  shows "padStart (toString16 n) 2 = [digitChar (n div 16), digitChar (n mod 16)]"
proof (cases "n < 16")
  case True
  then show ?thesis by (simp add: padStart_def digitChar_0)
next
  case False
  with assms have "n div 16 < 16" by simp
  with False show ?thesis by (simp add: padStart_def)
qed

lemma bytesToHex_Nil: "bytesToHex [] = []"
  by (simp add: bytesToHex_def)

lemma bytesToHex_Cons:
  "bytesToHex (b # bs) = digitChar (unat b div 16) # digitChar (unat b mod 16) # bytesToHex bs"
proof -
  have "unat b < 256" using unsigned_less [of b] by simp
  then show ?thesis by (simp add: bytesToHex_def padStart_byte del: toString16.simps)
qed

lemma toUint8_byte_digits:
  "toUint8 (parseInt16 [digitChar (unat b div 16), digitChar (unat b mod 16)]) = (b :: byte)"
proof -
  have lt: "unat b < 256" using unsigned_less [of b] by simp
  then have "unat b div 16 < 16" by simp
  then have "parseInt16 [digitChar (unat b div 16), digitChar (unat b mod 16)]
      = Some (int (unat b div 16 * 16 + unat b mod 16))"
    by (simp add: parseInt16_two_digits)
  then show ?thesis by (simp add: toUint8_def)
qed

lemma hexPairs_bytesToHex: "hexPairs (bytesToHex bs) = bs"
  by (induction bs) (simp_all add: bytesToHex_Nil bytesToHex_Cons toUint8_byte_digits)

lemma length_bytesToHex: "length (bytesToHex bs) = 2 * length bs"
  by (induction bs) (simp_all add: bytesToHex_Nil bytesToHex_Cons)

lemma bytesToHex_no_prefix: "take 2 (bytesToHex bs) \<noteq> ''0x''"
proof (cases bs)
  case Nil
  then show ?thesis by (simp add: bytesToHex_Nil)
next
  case (Cons b bs')
  have "unat b mod 16 < 16" by simp
  from digitChar_not_special [OF this] Cons show ?thesis
    by (simp add: bytesToHex_Cons)
qed

lemma lowercase_bytesToHex: "list_all (\<lambda>c. c \<in> lowerHexChars) (bytesToHex bs)"
proof (induction bs)
  case Nil
  show ?case by (simp add: bytesToHex_Nil)
next
  case (Cons b bs)
  have "unat b < 256" using unsigned_less [of b] by simp
  then have "unat b div 16 < 16" "unat b mod 16 < 16" by simp_all
  then have "digitChar (unat b div 16) \<in> lowerHexChars"
    "digitChar (unat b mod 16) \<in> lowerHexChars"
    by (simp_all only: digitChar_lowercase)
  with Cons show ?case by (simp add: bytesToHex_Cons)
qed

text \<open>
  Claim C10: for every byte array \<open>b\<close>, \<open>hexToBytes (bytesToHex b)\<close> is \<open>b\<close> again, and
  \<open>bytesToHex\<close> writes two lowercase hexadecimal characters for each byte.
\<close>

theorem hexToBytes_bytesToHex:
  "hexToBytes (bytesToHex b) = b \<and>
   length (bytesToHex b) = 2 * length b \<and>
   list_all (\<lambda>c. c \<in> lowerHexChars) (bytesToHex b)"
  by (simp add: hexToBytes_def bytesToHex_no_prefix length_bytesToHex hexPairs_bytesToHex
      lowercase_bytesToHex)

section \<open>The scalar codec\<close>

lemma isHexDigit_props:
  assumes "isHexDigit c"
  shows "\<not> isWhiteSpace c" "c \<noteq> CHR ''+''" "c \<noteq> CHR ''-''" "c \<noteq> CHR ''x''" "c \<noteq> CHR ''X''"
    "the (hexDigitVal c) < 16"
  using assms
  by (auto simp: isHexDigit_def hexDigitVal_def isWhiteSpace_def Let_def split: if_splits)

lemma parseInt16_hex_pair:
  assumes "isHexDigit a" "isHexDigit b"
  shows "parseInt16 [a, b] = Some (int (the (hexDigitVal a) * 16 + the (hexDigitVal b)))"
  using isHexDigit_props [OF assms(1)] isHexDigit_props [OF assms(2)] assms
  by (simp add: parseInt16_def digitsValue_def)

lemma uint_toUint8_hex_pair:
  assumes "isHexDigit a" "isHexDigit b"
  shows "uint (toUint8 (parseInt16 [a, b])) = int (the (hexDigitVal a) * 16 + the (hexDigitVal b))"
proof -
  have "the (hexDigitVal a) * 16 + the (hexDigitVal b) < 256"
    using isHexDigit_props(6) [OF assms(1)] isHexDigit_props(6) [OF assms(2)] by simp
  then show ?thesis
    by (simp add: parseInt16_hex_pair [OF assms] toUint8_def uint_nat unat_of_nat
        del: of_nat_add of_nat_mult)
qed

lemma foldl_hexPairs:
  "list_all isHexDigit str \<Longrightarrow> even (length str) \<Longrightarrow>
   foldl (\<lambda>result byte. push_bit 8 result + uint byte) (int acc) (hexPairs str)
     = int (foldl (\<lambda>acc c. acc * 16 + the (hexDigitVal c)) acc str)"
proof (induction str arbitrary: acc rule: hexPairs.induct)
  case (1 a b rest)
  have "foldl (\<lambda>result byte. push_bit 8 result + uint byte) (int acc) (hexPairs (a # b # rest))
      = foldl (\<lambda>result byte. push_bit 8 result + uint byte)
          (int ((acc * 16 + the (hexDigitVal a)) * 16 + the (hexDigitVal b))) (hexPairs rest)"
    using "1.prems" by (simp add: uint_toUint8_hex_pair push_bit_eq_mult algebra_simps)
  also have "\<dots> = int (foldl (\<lambda>acc c. acc * 16 + the (hexDigitVal c))
          ((acc * 16 + the (hexDigitVal a)) * 16 + the (hexDigitVal b)) rest)"
    using "1.prems" by (intro "1.IH") simp_all
  finally show ?case by simp
qed simp_all

lemma bytesToNumber_hexPairs:
  "list_all isHexDigit str \<Longrightarrow> even (length str) \<Longrightarrow>
   bytesToNumber (hexPairs str) = int (digitsValue str)"
  using foldl_hexPairs [of str 0] by (simp add: bytesToNumber_def digitsValue_def)

lemma length_hexPairs: "length (hexPairs str) = length str div 2"
  by (induction str rule: hexPairs.induct) simp_all

lemma hexToBytes_hex_string:
  assumes "list_all isHexDigit str" "even (length str)"
  shows "hexToBytes str = hexPairs str"
proof -
  have "take 2 str \<noteq> ''0x''"
  proof
    assume *: "take 2 str = ''0x''"
    then obtain rest where "str = CHR ''0'' # CHR ''x'' # rest"
      by (cases str; cases "tl str") auto
    with assms(1) have "isHexDigit CHR ''x''" by simp
    then show False using isHexDigit_props(4) by blast
  qed
  with assms(2) show ?thesis by (simp add: hexToBytes_def)
qed

lemma digitsValue_snoc: "digitsValue (ds @ [c]) = digitsValue ds * 16 + the (hexDigitVal c)"
  by (simp add: digitsValue_def)

lemma digitsValue_toString16: "digitsValue (toString16 n) = n"
proof (induction n rule: toString16.induct)
  case (1 n)
  show ?case
  proof (cases "n < 16")
    case True
    then show ?thesis by (simp add: digitsValue_def hexDigitVal_digitChar)
  next
    case False
    then have "toString16 n = toString16 (n div 16) @ [digitChar (n mod 16)]" by simp
    with False "1.IH" show ?thesis
      by (simp add: digitsValue_snoc hexDigitVal_digitChar del: toString16.simps)
  qed
qed

lemma isHexDigit_toString16: "list_all isHexDigit (toString16 n)"
proof (induction n rule: toString16.induct)
  case (1 n)
  show ?case
  proof (cases "n < 16")
    case True
    then show ?thesis by (simp add: isHexDigit_digitChar)
  next
    case False
    then have "toString16 n = toString16 (n div 16) @ [digitChar (n mod 16)]" by simp
    with False "1.IH" show ?thesis
      by (simp add: isHexDigit_digitChar del: toString16.simps)
  qed
qed

lemma length_toString16: "0 < l \<Longrightarrow> n < 16 ^ l \<Longrightarrow> length (toString16 n) \<le> l"
proof (induction n arbitrary: l rule: toString16.induct)
  case (1 n)
  show ?case
  proof (cases "n < 16")
    case True
    with "1.prems" show ?thesis by simp
  next
    case False
    then have eq: "toString16 n = toString16 (n div 16) @ [digitChar (n mod 16)]" by simp
    from False "1.prems" have "l \<noteq> 1" by auto
    with "1.prems" obtain l' where l: "l = Suc l'" "0 < l'" by (cases l) auto
    with "1.prems" have "n div 16 < 16 ^ l'"
      by (simp add: less_mult_imp_div_less mult.commute)
    with "1.IH" [OF False l(2)] have "length (toString16 (n div 16)) \<le> l'" by simp
    with eq l show ?thesis by (simp del: toString16.simps)
  qed
qed

lemma digitsValue_zero_pad: "digitsValue (replicate k CHR ''0'' @ ds) = digitsValue ds"
proof -
  have "foldl (\<lambda>acc c. acc * 16 + the (hexDigitVal c)) 0 (replicate k CHR ''0'') = 0"
    by (induction k) (simp_all add: hexDigitVal_def)
  then show ?thesis by (simp add: digitsValue_def)
qed

lemma numberToBytes_correct:
  assumes "0 \<le> num" "num < 256 ^ len" "0 < len"
  shows "length (numberToBytes num len) = len"
    and "bytesToNumber (numberToBytes num len) = num"
proof -
  define str where "str = padStart (bigintToString16 num) (len * 2)"
  have big: "bigintToString16 num = toString16 (nat num)"
    using assms(1) by (simp add: bigintToString16_def del: toString16.simps)
  have "(16::int) ^ (2 * len) = (16 ^ 2) ^ len" by (rule power_mult)
  then have "(256::int) ^ len = 16 ^ (len * 2)"
    by (simp add: mult.commute [of len 2])
  with assms have "nat num < 16 ^ (len * 2)"
    by (metis nat_less_iff of_nat_numeral of_nat_power)
  with assms(3) have le: "length (toString16 (nat num)) \<le> len * 2"
    by (intro length_toString16) simp_all
  then have len_str: "length str = len * 2"
    by (simp add: str_def padStart_def big del: toString16.simps)
  have "isHexDigit CHR ''0''"
    by (simp add: isHexDigit_def hexDigitVal_def)
  then have "list_all isHexDigit (replicate k CHR ''0'')" for k
    by (simp add: list_all_iff)
  then have hex: "list_all isHexDigit str"
    using isHexDigit_toString16 [of "nat num"]
    by (simp add: str_def padStart_def big del: toString16.simps)
  have val: "digitsValue str = nat num"
    by (simp add: str_def padStart_def big digitsValue_zero_pad digitsValue_toString16
        del: toString16.simps)
  have eq: "numberToBytes num len = hexPairs str"
    unfolding numberToBytes_def str_def [symmetric]
    using hex len_str by (intro hexToBytes_hex_string) simp_all
  show "length (numberToBytes num len) = len"
    by (simp add: eq length_hexPairs len_str)
  show "bytesToNumber (numberToBytes num len) = num"
    using assms(1) hex len_str by (simp add: eq bytesToNumber_hexPairs val)
qed

section \<open>Modular arithmetic\<close>

lemma mod_eots_pos: "0 < b \<Longrightarrow> mod_eots a b = Inr (a mod b)"
proof (cases "0 \<le> a")
  case True
  assume "0 < b"
  with True have "a smod b = a mod b" by (simp add: smod_mod_positive)
  with \<open>0 < b\<close> show ?thesis by (simp add: mod_eots_def)
next
  case False
  assume b: "0 < b"
  from False b have sm: "a smod b = - ((- a) mod b)"
    by (simp add: signed_modulo_int_def sgn_if)
  show ?thesis
  proof (cases "a mod b = 0")
    case True
    then have "(- a) mod b = 0" by (simp add: zmod_zminus1_eq_if)
    with True b sm show ?thesis by (simp add: mod_eots_def)
  next
    case nz: False
    then have eq: "(- a) mod b = b - a mod b" by (simp add: zmod_zminus1_eq_if)
    have "0 \<le> a mod b" "a mod b < b" using b by simp_all
    with nz eq sm b show ?thesis by (simp add: mod_eots_def Let_def)
  qed
qed

lemma modInverse_loop_invariant:
  assumes "modInverse_loop old_r r old_s s = (g, t)"
    and "0 \<le> old_r" "0 \<le> r"
    and "(old_s * a) mod m = old_r mod m" "(s * a) mod m = r mod m"
  shows "g = gcd old_r r \<and> (t * a) mod m = g mod m"
  using assms
proof (induction old_r r old_s s rule: modInverse_loop.induct)
  case (1 old_r r old_s s)
  show ?case
  proof (cases "r = 0")
    case True
    with "1.prems" show ?thesis by (simp add: modInverse_loop.simps [of old_r 0])
  next
    case False
    define q where "q = old_r sdiv r"
    from False "1.prems" have rpos: "0 < r" by simp
    with "1.prems" have q: "q = old_r div r"
      by (simp add: q_def signed_divide_int_eq_divide_int sgn_if)
    have rem: "old_r - q * r = old_r mod r"
      unfolding q by (simp add: minus_div_mult_eq_mod)
    have step: "modInverse_loop r (old_r - q * r) s (old_s - q * s) = (g, t)"
      using "1.prems"(1) False by (simp add: modInverse_loop.simps [of old_r r] q_def Let_def)
    have "((old_s - q * s) * a) mod m = (old_s * a - q * (s * a)) mod m"
      by (simp add: algebra_simps)
    also have "\<dots> = (old_r - q * r) mod m"
      using "1.prems"(4,5) by (intro mod_diff_cong mod_mult_cong refl)
    finally have inv: "((old_s - q * s) * a) mod m = (old_r - q * r) mod m" .
    have "g = gcd r (old_r - q * r) \<and> (t * a) mod m = g mod m"
      using False q_def step rpos rem "1.prems"(5) inv
      by (intro "1.IH" [of q]) simp_all
    moreover have "gcd r (old_r - q * r) = gcd old_r r"
      unfolding rem by (metis gcd.commute gcd_red_int)
    ultimately show ?thesis by simp
  qed
qed

lemma modInverse_nonneg:
  assumes "0 \<le> a" "1 < m"
  shows "modInverse a m =
     (if coprime a m
      then Inr (let t = snd (modInverse_loop a m 1 0) in if t < 0 then t + m else t)
      else Inl NoInverse)"
    and "coprime a m \<Longrightarrow>
      ((let t = snd (modInverse_loop a m 1 0) in if t < 0 then t + m else t) * a) mod m = 1"
proof -
  obtain g t where gt: "modInverse_loop a m 1 0 = (g, t)" by (cases "modInverse_loop a m 1 0")
  from assms have inv: "g = gcd a m \<and> (t * a) mod m = g mod m"
    by (intro modInverse_loop_invariant [OF gt]) simp_all
  have gpos: "0 < g" using inv assms by (simp add: gcd_pos_int)
  have cop: "coprime a m \<longleftrightarrow> g = 1" using inv by (simp add: coprime_iff_gcd_eq_1)
  with gpos have "coprime a m \<longleftrightarrow> \<not> g > 1" by auto
  with assms gt show "modInverse a m =
     (if coprime a m
      then Inr (let t = snd (modInverse_loop a m 1 0) in if t < 0 then t + m else t)
      else Inl NoInverse)"
    by (simp add: modInverse_def Let_def)
  assume "coprime a m"
  with cop inv assms have "(t * a) mod m = 1" by simp
  moreover have "((t + m) * a) mod m = (t * a) mod m"
    by (simp add: algebra_simps)
  ultimately show "((let t = snd (modInverse_loop a m 1 0) in if t < 0 then t + m else t) * a) mod m = 1"
    using gt by (simp add: Let_def)
qed

lemma modInverse_coprime:
  assumes "0 \<le> a" "1 < m" "coprime a m"
  obtains v where "modInverse a m = Inr v" "(v * a) mod m = 1"
  using modInverse_nonneg [OF assms(1,2)] assms(3) by auto

lemma modInverse_not_coprime:
  assumes "0 \<le> a" "1 < m" "\<not> coprime a m"
  shows "modInverse a m = Inl NoInverse"
  using modInverse_nonneg(1) [OF assms(1,2)] assms(3) by simp


lemma secp256k1_n_gt_1: "1 < secp256k1_n"
  by (simp add: secp256k1_n_def)

lemma secp256k1_n_bound: "secp256k1_n < 256 ^ 32"
  by (simp add: secp256k1_n_def)

lemma bytesToNumber_secp256k1_n_bytes: "bytesToNumber secp256k1_n_bytes = secp256k1_n"
  by (simp add: bytesToNumber_def secp256k1_n_bytes_def secp256k1_n_def)

section \<open>Verification and extraction preconditions\<close>


lemma typedArraySet_derSig:
  assumes "length rBytes = 32" "length sBytes = 32"
  shows "(case typedArraySet (replicate 64 0) rBytes 0 of
            Inl e \<Rightarrow> Inl e
          | Inr derSig1 \<Rightarrow>
              (case typedArraySet derSig1 sBytes 32 of
                 Inl e \<Rightarrow> Inl e
               | Inr derSig2 \<Rightarrow> f derSig2)) = f (rBytes @ sBytes)"
  using assms by (simp add: typedArraySet_def)

lemma verifyEOTS_try_eq:
  assumes "CURVE_n \<le> 256 ^ 32"
  shows "verifyEOTS_try CURVE_n verify publicKey messageHash signature =
     (let r = bytesToNumber (sig_r signature); s = bytesToNumber (sig_s signature)
      in if r \<le> 0 \<or> r \<ge> CURVE_n \<or> s \<le> 0 \<or> s \<ge> CURVE_n then Inr False
         else case verify (numberToBytes r 32 @ numberToBytes s 32)
                     (toBytes messageHash) (toBytes publicKey) of
                Inl e \<Rightarrow> Inr True
              | Inr b \<Rightarrow> Inr b)"
proof -
  define r s where "r = bytesToNumber (sig_r signature)" and "s = bytesToNumber (sig_s signature)"
  show ?thesis
  proof (cases "r \<le> 0 \<or> r \<ge> CURVE_n \<or> s \<le> 0 \<or> s \<ge> CURVE_n")
    case True
    then show ?thesis
      unfolding verifyEOTS_try_def Let_def r_def s_def by simp
  next
    case False
    with assms have "0 \<le> r" "r < 256 ^ 32" "0 \<le> s" "s < 256 ^ 32" by auto
    then have len: "length (numberToBytes r 32) = 32" "length (numberToBytes s 32) = 32"
      by (simp_all add: numberToBytes_correct(1))
    from False show ?thesis
      unfolding verifyEOTS_try_def Let_def r_def [symmetric] s_def [symmetric]
      by (simp only: typedArraySet_derSig [OF len] if_False)
  qed
qed

text \<open>
  Claim C7: when \<open>r\<close> or \<open>s\<close> of the signature, read as a big-endian integer, is \<open>\<le> 0\<close>
  or \<open>\<ge> n\<close>, \<open>verifyEOTS\<close> returns false, whatever the library's verification routine
  would do (it is not called), and nothing is thrown: the body of the outer \<open>try\<close> itself
  returns false.
\<close>

theorem verifyEOTS_out_of_range:
  assumes "bytesToNumber (sig_r signature) \<le> 0 \<or> bytesToNumber (sig_r signature) \<ge> CURVE_n \<or>
           bytesToNumber (sig_s signature) \<le> 0 \<or> bytesToNumber (sig_s signature) \<ge> CURVE_n"
  shows "verifyEOTS_try CURVE_n verify publicKey messageHash signature = Inr False \<and>
         verifyEOTS CURVE_n verify publicKey messageHash signature = False"
  using assms unfolding verifyEOTS_def verifyEOTS_try_def Let_def by simp

theorem verifyEOTS_out_of_range_witness:
  "verifyEOTS secp256k1_n verify_accepts (Bytes []) (Bytes [])
     \<lparr>sig_r = secp256k1_n_bytes, sig_s = [1]\<rparr> = False \<and>
   verifyEOTS secp256k1_n verify_accepts (Bytes []) (Bytes []) \<lparr>sig_r = [1], sig_s = [0]\<rparr> = False"
proof -
  have 1: "bytesToNumber (sig_r \<lparr>sig_r = secp256k1_n_bytes, sig_s = [1]\<rparr>) \<ge> secp256k1_n"
    by (simp add: bytesToNumber_secp256k1_n_bytes)
  have 2: "bytesToNumber (sig_s \<lparr>sig_r = [1], sig_s = [0]\<rparr>) \<le> 0"
    by (simp add: bytesToNumber_def)
  from 1 2 show ?thesis
    using verifyEOTS_out_of_range [of "\<lparr>sig_r = secp256k1_n_bytes, sig_s = [1]\<rparr>" secp256k1_n
        verify_accepts "Bytes []" "Bytes []"]
      verifyEOTS_out_of_range [of "\<lparr>sig_r = [1], sig_s = [0]\<rparr>" secp256k1_n
        verify_accepts "Bytes []" "Bytes []"]
    by simp
qed

text \<open>
  Claim C3 says that an error thrown by the library's verification routine gives false. The
  inner \<open>catch\<close> of \<open>verifyEOTS\<close> returns true: with \<open>r = s = 1\<close> and a routine that throws,
  the result is true.
\<close>

theorem verifyEOTS_library_throws_counterexample:
  "verify_throws (numberToBytes 1 32 @ numberToBytes 1 32) [] [] = Inl LibraryError \<and>
   verifyEOTS secp256k1_n verify_throws (Bytes []) (Bytes []) \<lparr>sig_r = [1], sig_s = [1]\<rparr> = True"
proof -
  have "secp256k1_n \<le> 256 ^ 32" using secp256k1_n_bound by simp
  then show ?thesis
    by (simp add: verifyEOTS_def verifyEOTS_try_eq verify_throws_def bytesToNumber_def toBytes_def)
       (simp add: secp256k1_n_def)
qed

text \<open>
  Claim C3, amended: \<open>verifyEOTS\<close> never throws, the body of its outer \<open>try\<close> returns a
  boolean for every public key, digest and signature; and when the library's verification
  routine throws, the error is caught and the result is true exactly when \<open>0 < r < n\<close> and
  \<open>0 < s < n\<close> (out of that range the routine is not called and the result is false). The
  order \<open>n\<close> fits 32 bytes.
\<close>

theorem verifyEOTS_never_throws:
  assumes "CURVE_n \<le> 256 ^ 32"
  shows "(\<exists>b. verifyEOTS_try CURVE_n verify publicKey messageHash signature = Inr b) \<and>
   (verify (numberToBytes (bytesToNumber (sig_r signature)) 32 @
            numberToBytes (bytesToNumber (sig_s signature)) 32)
      (toBytes messageHash) (toBytes publicKey) = Inl e \<longrightarrow>
    verifyEOTS CURVE_n verify publicKey messageHash signature =
      (0 < bytesToNumber (sig_r signature) \<and> bytesToNumber (sig_r signature) < CURVE_n \<and>
       0 < bytesToNumber (sig_s signature) \<and> bytesToNumber (sig_s signature) < CURVE_n))"
  by (auto simp: verifyEOTS_def verifyEOTS_try_eq [OF assms] Let_def split: sum.splits)

theorem verifyEOTS_never_throws_witness:
  "secp256k1_n \<le> 256 ^ 32 \<and>
   (\<exists>b. verifyEOTS_try secp256k1_n verify_throws (Bytes []) (Bytes [])
          \<lparr>sig_r = [1], sig_s = [1]\<rparr> = Inr b) \<and>
   verifyEOTS secp256k1_n verify_throws (Bytes []) (Bytes []) \<lparr>sig_r = [1], sig_s = [1]\<rparr> = True \<and>
   verifyEOTS secp256k1_n verify_throws (Bytes []) (Bytes []) \<lparr>sig_r = [0], sig_s = [1]\<rparr> = False"
proof -
  have n: "secp256k1_n \<le> 256 ^ 32" using secp256k1_n_bound by simp
  have gt: "1 < secp256k1_n" by (rule secp256k1_n_gt_1)
  show ?thesis
    using verifyEOTS_never_throws [OF n, of verify_throws "Bytes []" "Bytes []"
        "\<lparr>sig_r = [1], sig_s = [1]\<rparr>" LibraryError]
      verifyEOTS_never_throws [OF n, of verify_throws "Bytes []" "Bytes []"
        "\<lparr>sig_r = [0], sig_s = [1]\<rparr>" LibraryError]
      n gt
    by (simp add: verify_throws_def bytesToNumber_def)
qed

text \<open>
  Claim C5: \<open>extractPrivateKey\<close> checks its preconditions in order. When \<open>r1 \<noteq> r2\<close> it
  fails with the nonce-mismatch error; otherwise when \<open>s1 = s2\<close> with the identical-signatures
  error; otherwise when \<open>(s1 - s2) mod n = 0\<close> with the degenerate-signatures error. The three
  errors are distinct, and in each case the result is the error, whatever the digests are.
\<close>

theorem extractPrivateKey_preconditions:
  assumes "0 < CURVE_n"
  shows "(bytesToNumber (sig_r sig1) \<noteq> bytesToNumber (sig_r sig2) \<longrightarrow>
      extractPrivateKey CURVE_n sig1 sig2 hash1 hash2 = Inl NonceMismatch) \<and>
   (bytesToNumber (sig_r sig1) = bytesToNumber (sig_r sig2) \<and>
    bytesToNumber (sig_s sig1) = bytesToNumber (sig_s sig2) \<longrightarrow>
      extractPrivateKey CURVE_n sig1 sig2 hash1 hash2 = Inl IdenticalSignatures) \<and>
   (bytesToNumber (sig_r sig1) = bytesToNumber (sig_r sig2) \<and>
    bytesToNumber (sig_s sig1) \<noteq> bytesToNumber (sig_s sig2) \<and>
    (bytesToNumber (sig_s sig1) - bytesToNumber (sig_s sig2)) mod CURVE_n = 0 \<longrightarrow>
      extractPrivateKey CURVE_n sig1 sig2 hash1 hash2 = Inl DegenerateSignatures) \<and>
   NonceMismatch \<noteq> IdenticalSignatures \<and> NonceMismatch \<noteq> DegenerateSignatures \<and>
   IdenticalSignatures \<noteq> DegenerateSignatures"
  using assms by (simp add: extractPrivateKey_def Let_def mod_eots_pos)

theorem extractPrivateKey_preconditions_witness:
  "0 < secp256k1_n \<and>
   extractPrivateKey secp256k1_n \<lparr>sig_r = [1], sig_s = [5]\<rparr> \<lparr>sig_r = [2], sig_s = [5]\<rparr>
     (Bytes [7]) (Bytes [9]) = Inl NonceMismatch \<and>
   extractPrivateKey secp256k1_n \<lparr>sig_r = [1], sig_s = [5]\<rparr> \<lparr>sig_r = [0, 1], sig_s = [5]\<rparr>
     (Bytes [7]) (Bytes [9]) = Inl IdenticalSignatures \<and>
   extractPrivateKey secp256k1_n \<lparr>sig_r = [1], sig_s = secp256k1_n_bytes\<rparr> \<lparr>sig_r = [1], sig_s = [0]\<rparr>
     (Bytes [7]) (Bytes [9]) = Inl DegenerateSignatures"
proof -
  have b: "bytesToNumber [1] = 1" "bytesToNumber [2] = 2" "bytesToNumber [5] = 5"
    "bytesToNumber [0, 1] = 1" "bytesToNumber [0] = 0"
    by (simp_all add: bytesToNumber_def)
  have n: "0 < secp256k1_n" using secp256k1_n_gt_1 by simp
  then have nz: "secp256k1_n \<noteq> 0" by simp
  show ?thesis
    using extractPrivateKey_preconditions [OF n,
        of "\<lparr>sig_r = [1], sig_s = [5]\<rparr>" "\<lparr>sig_r = [2], sig_s = [5]\<rparr>" "Bytes [7]" "Bytes [9]"]
      extractPrivateKey_preconditions [OF n,
        of "\<lparr>sig_r = [1], sig_s = [5]\<rparr>" "\<lparr>sig_r = [0, 1], sig_s = [5]\<rparr>" "Bytes [7]" "Bytes [9]"]
      extractPrivateKey_preconditions [OF n,
        of "\<lparr>sig_r = [1], sig_s = secp256k1_n_bytes\<rparr>" "\<lparr>sig_r = [1], sig_s = [0]\<rparr>"
           "Bytes [7]" "Bytes [9]"]
    by (simp add: b n nz bytesToNumber_secp256k1_n_bytes)
qed

section \<open>Signing\<close>

lemma prime_orderD:
  assumes "prime_order n"
  shows "1 < n" "0 < n" "n < 256 ^ 32" "0 < a \<Longrightarrow> a < n \<Longrightarrow> coprime a n"
  using assms by (auto simp: prime_order_def)


text \<open>What \<open>signEOTS\<close> returns once the nonce is in range and the library has returned a point.\<close>

lemma signEOTS_valid_nonce:
  assumes n: "1 < CURVE_n" "CURVE_n < 256 ^ 32"
    and k: "k = signEOTS_nonce sha256 (toBytes privateKey) (toBytes messageHash) nonce"
    and range: "0 < bytesToNumber k" "bytesToNumber k < CURVE_n"
    and cop: "coprime (bytesToNumber k) CURVE_n"
    and pt: "getPublicKeySecp k False = Inr kPoint"
  shows "\<exists>kInv. modInverse (bytesToNumber k) CURVE_n = Inr kInv \<and>
           (kInv * bytesToNumber k) mod CURVE_n = 1 \<and>
           signEOTS CURVE_n getPublicKeySecp sha256 privateKey messageHash nonce =
             (let s = (kInv * (bytesToNumber (toBytes messageHash) +
                        bytesToNumber (typedArraySlice kPoint 1 33) *
                        bytesToNumber (toBytes privateKey))) mod CURVE_n
              in if s = 0 then Inl SignatureSZero
                 else Inr \<lparr>sig_r = typedArraySlice kPoint 1 33, sig_s = numberToBytes s 32\<rparr>) \<and>
           (let s = (kInv * (bytesToNumber (toBytes messageHash) +
                        bytesToNumber (typedArraySlice kPoint 1 33) *
                        bytesToNumber (toBytes privateKey))) mod CURVE_n
            in length (numberToBytes s 32) = 32 \<and> bytesToNumber (numberToBytes s 32) = s)"
proof -
  from range(1) n(1) cop obtain kInv
    where inv: "modInverse (bytesToNumber k) CURVE_n = Inr kInv"
      and one: "(kInv * bytesToNumber k) mod CURVE_n = 1"
    by (metis modInverse_coprime less_imp_le)
  define s where "s = (kInv * (bytesToNumber (toBytes messageHash) +
      bytesToNumber (typedArraySlice kPoint 1 33) * bytesToNumber (toBytes privateKey))) mod CURVE_n"
  have pos: "0 < CURVE_n" using n(1) by simp
  have "0 \<le> s" "s < CURVE_n" using pos by (simp_all add: s_def)
  with n(2) have "0 \<le> s" "s < 256 ^ 32" by simp_all
  then have enc: "length (numberToBytes s 32) = 32" "bytesToNumber (numberToBytes s 32) = s"
    by (simp_all add: numberToBytes_correct)
  have "signEOTS CURVE_n getPublicKeySecp sha256 privateKey messageHash nonce =
      (if s = 0 then Inl SignatureSZero
       else Inr \<lparr>sig_r = typedArraySlice kPoint 1 33, sig_s = numberToBytes s 32\<rparr>)"
    using range pt inv pos
    by (simp add: signEOTS_def Let_def k [symmetric] mod_eots_pos s_def)
  with inv one enc show ?thesis
    unfolding Let_def s_def by blast
qed


section \<open>The signing equation\<close>

lemma prime_order_tiny_n: "prime_order tiny_n"
proof -
  have all: "list_all (\<lambda>a. coprime a 139) [1..138::int]"
    by code_simp
  have "coprime a 139" if "0 < a" "a < 139" for a :: int
  proof -
    from that have "a \<in> set [1..138]" by simp
    with all show ?thesis unfolding list_all_iff by blast
  qed
  then show ?thesis by (simp add: prime_order_def tiny_n_def)
qed

lemma bytesToNumber_single: "bytesToNumber [b] = uint b"
  by (simp add: bytesToNumber_def)

lemma tiny_point_2: "tiny_getPublicKey [2] False = Inr (4 # replicate 31 0 @ [31] @ replicate 31 0 @ [28])"
  by (simp add: tiny_getPublicKey_def tiny_points_def bytesToNumber_single)

lemma bytesToNumber_replicate_0: "bytesToNumber (replicate m 0 @ bs) = bytesToNumber bs"
proof -
  have "foldl (\<lambda>result byte. push_bit 8 result + uint byte) 0 (replicate m (0 :: byte)) = 0"
    by (induction m) simp_all
  then show ?thesis by (simp add: bytesToNumber_def)
qed

lemma typedArraySlice_tiny:
  "typedArraySlice (4 # replicate 31 0 @ [x] @ replicate 31 0 @ [y]) 1 33 = replicate 31 0 @ [x]"
  by (simp add: typedArraySlice_def)

text \<open>
  Claim C6 says that, for a nonce in range, \<open>signEOTS\<close> computes \<open>s\<close> and either fails
  because \<open>s = 0\<close> or returns \<open>(r, s)\<close>. Between the check of the nonce and the computation
  of \<open>s\<close> stands the library's point multiplication: with the nonce 2, which is in range, and a
  point multiplication that throws, \<open>signEOTS\<close> fails with the library's error.
\<close>

theorem signEOTS_library_throws_counterexample:
  "0 < bytesToNumber [2] \<and> bytesToNumber [2] < secp256k1_n \<and>
   getPublicKey_throws [2] False = Inl LibraryError \<and>
   signEOTS secp256k1_n getPublicKey_throws sha256_stub (Bytes [1]) (Bytes [1]) (Some (Bytes [2]))
     = Inl LibraryError"
  by (simp add: signEOTS_def signEOTS_nonce_def toBytes_def bytesToNumber_single
      getPublicKey_throws_def secp256k1_n_def)

text \<open>
  Claim C6, amended: \<open>signEOTS\<close> fails with the invalid-nonce error when the nonce \<open>k\<close> it
  selected (explicit or derived) is 0 or \<open>\<ge> n\<close>. Otherwise it calls the library for the point
  \<open>k\<cdot>G\<close>: when the library throws, \<open>signEOTS\<close> fails with that error; when it returns the
  point, \<open>signEOTS\<close> computes \<open>s = k\<^sup>-\<^sup>1 \<cdot> (digest + r \<cdot> privateKey) mod n\<close>, with \<open>k\<^sup>-\<^sup>1\<close> the
  value of \<open>modInverse\<close> (\<open>k\<^sup>-\<^sup>1 \<cdot> k mod n = 1\<close>); it fails when \<open>s = 0\<close> and returns
  \<open>(r, s)\<close> otherwise, \<open>s\<close> being the 32 bytes that read back as \<open>s\<close>. The order \<open>n\<close> is a
  prime that fits 32 bytes.
\<close>

theorem signEOTS_nonce_check_and_s:
  fixes CURVE_n :: int and sha256 :: "byte list \<Rightarrow> byte list"
    and privateKey messageHash :: bytes_or_hex and nonce :: "bytes_or_hex option"
  assumes "prime_order CURVE_n"
  defines "k \<equiv> signEOTS_nonce sha256 (toBytes privateKey) (toBytes messageHash) nonce"
  shows "(bytesToNumber k = 0 \<or> bytesToNumber k \<ge> CURVE_n \<longrightarrow>
            signEOTS CURVE_n getPublicKeySecp sha256 privateKey messageHash nonce = Inl InvalidNonce) \<and>
         (0 < bytesToNumber k \<and> bytesToNumber k < CURVE_n \<and>
          getPublicKeySecp k False = Inl e \<longrightarrow>
            signEOTS CURVE_n getPublicKeySecp sha256 privateKey messageHash nonce = Inl e) \<and>
         (0 < bytesToNumber k \<and> bytesToNumber k < CURVE_n \<and>
          getPublicKeySecp k False = Inr kPoint \<longrightarrow>
            (\<exists>kInv. modInverse (bytesToNumber k) CURVE_n = Inr kInv \<and>
               (kInv * bytesToNumber k) mod CURVE_n = 1 \<and>
               signEOTS CURVE_n getPublicKeySecp sha256 privateKey messageHash nonce =
                 (let s = (kInv * (bytesToNumber (toBytes messageHash) +
                            bytesToNumber (typedArraySlice kPoint 1 33) *
                            bytesToNumber (toBytes privateKey))) mod CURVE_n
                  in if s = 0 then Inl SignatureSZero
                     else Inr \<lparr>sig_r = typedArraySlice kPoint 1 33, sig_s = numberToBytes s 32\<rparr>) \<and>
               (let s = (kInv * (bytesToNumber (toBytes messageHash) +
                            bytesToNumber (typedArraySlice kPoint 1 33) *
                            bytesToNumber (toBytes privateKey))) mod CURVE_n
                in length (numberToBytes s 32) = 32 \<and> bytesToNumber (numberToBytes s 32) = s)))"
proof (intro conjI impI)
  assume "bytesToNumber k = 0 \<or> bytesToNumber k \<ge> CURVE_n"
  then show "signEOTS CURVE_n getPublicKeySecp sha256 privateKey messageHash nonce = Inl InvalidNonce"
    by (auto simp: signEOTS_def Let_def k_def)
next
  assume "0 < bytesToNumber k \<and> bytesToNumber k < CURVE_n \<and> getPublicKeySecp k False = Inl e"
  then show "signEOTS CURVE_n getPublicKeySecp sha256 privateKey messageHash nonce = Inl e"
    by (simp add: signEOTS_def Let_def k_def)
next
  assume a: "0 < bytesToNumber k \<and> bytesToNumber k < CURVE_n \<and>
    getPublicKeySecp k False = Inr kPoint"
  note n = prime_orderD [OF assms(1)]
  from a have "coprime (bytesToNumber k) CURVE_n" by (intro n(4)) simp_all
  with a show "\<exists>kInv. modInverse (bytesToNumber k) CURVE_n = Inr kInv \<and>
               (kInv * bytesToNumber k) mod CURVE_n = 1 \<and>
               signEOTS CURVE_n getPublicKeySecp sha256 privateKey messageHash nonce =
                 (let s = (kInv * (bytesToNumber (toBytes messageHash) +
                            bytesToNumber (typedArraySlice kPoint 1 33) *
                            bytesToNumber (toBytes privateKey))) mod CURVE_n
                  in if s = 0 then Inl SignatureSZero
                     else Inr \<lparr>sig_r = typedArraySlice kPoint 1 33, sig_s = numberToBytes s 32\<rparr>) \<and>
               (let s = (kInv * (bytesToNumber (toBytes messageHash) +
                            bytesToNumber (typedArraySlice kPoint 1 33) *
                            bytesToNumber (toBytes privateKey))) mod CURVE_n
                in length (numberToBytes s 32) = 32 \<and> bytesToNumber (numberToBytes s 32) = s)"
    by (intro signEOTS_valid_nonce [OF n(1) n(3)]) (simp_all add: k_def)
qed

lemma tiny_point_3: "tiny_getPublicKey [3] False = Inl LibraryError"
  by (simp add: tiny_getPublicKey_def tiny_points_def bytesToNumber_single)

lemma modInverse_2_tiny_n: "modInverse 2 tiny_n = Inr 70"
  by code_simp

lemma numberToBytes_49: "numberToBytes 49 32 = replicate 31 0 @ [49]"
  by code_simp

theorem signEOTS_nonce_check_and_s_witness:
  "prime_order tiny_n \<and>
   signEOTS tiny_n tiny_getPublicKey sha256_stub (Bytes [3]) (Bytes [5]) (Some (Bytes [139]))
     = Inl InvalidNonce \<and>
   signEOTS tiny_n tiny_getPublicKey sha256_stub (Bytes [3]) (Bytes [5]) None
     = Inl InvalidNonce \<and>
   signEOTS tiny_n tiny_getPublicKey sha256_stub (Bytes [3]) (Bytes [5]) (Some (Bytes [3]))
     = Inl LibraryError \<and>
   signEOTS tiny_n tiny_getPublicKey sha256_stub (Bytes [3]) (Bytes [5]) (Some (Bytes [2]))
     = Inr \<lparr>sig_r = replicate 31 0 @ [31], sig_s = replicate 31 0 @ [49]\<rparr>"
proof -
  define P :: "byte list" where "P = 4 # replicate 31 0 @ [31] @ replicate 31 0 @ [28]"
  have k: "signEOTS_nonce sha256_stub (toBytes (Bytes [3])) (toBytes (Bytes [5])) (Some (Bytes [2])) = [2]"
    "signEOTS_nonce sha256_stub (toBytes (Bytes [3])) (toBytes (Bytes [5])) (Some (Bytes [3])) = [3]"
    "signEOTS_nonce sha256_stub (toBytes (Bytes [3])) (toBytes (Bytes [5])) (Some (Bytes [139])) = [139]"
    "signEOTS_nonce sha256_stub (toBytes (Bytes [3])) (toBytes (Bytes [5])) None = replicate 32 0"
    by (simp_all add: signEOTS_nonce_def sha256_stub_def)
  have z: "bytesToNumber (replicate 32 0) = 0"
    using bytesToNumber_replicate_0 [of 32 "[]"] by (simp add: bytesToNumber_def)
  have b: "bytesToNumber [2] = 2" "bytesToNumber [3] = 3" "bytesToNumber [139] = 139"
    "bytesToNumber (toBytes (Bytes [3])) = 3" "bytesToNumber (toBytes (Bytes [5])) = 5"
    by (simp_all add: bytesToNumber_single toBytes_def)
  have sl: "typedArraySlice P 1 33 = replicate 31 0 @ [31]"
    unfolding P_def by (rule typedArraySlice_tiny)
  have r: "bytesToNumber (replicate 31 0 @ [31]) = 31"
    by (simp only: bytesToNumber_replicate_0 bytesToNumber_single) simp
  have pt: "tiny_getPublicKey [2] False = Inr P"
    unfolding P_def by (rule tiny_point_2)
  have 1: "signEOTS tiny_n tiny_getPublicKey sha256_stub (Bytes [3]) (Bytes [5]) (Some (Bytes [139]))
      = Inl InvalidNonce"
    using signEOTS_nonce_check_and_s [OF prime_order_tiny_n, of sha256_stub "Bytes [3]" "Bytes [5]"
        "Some (Bytes [139])" tiny_getPublicKey LibraryError P]
    unfolding k b by (simp add: tiny_n_def)
  have 2: "signEOTS tiny_n tiny_getPublicKey sha256_stub (Bytes [3]) (Bytes [5]) None
      = Inl InvalidNonce"
    using signEOTS_nonce_check_and_s [OF prime_order_tiny_n, of sha256_stub "Bytes [3]" "Bytes [5]"
        None tiny_getPublicKey LibraryError P]
    unfolding k z by simp
  have 3: "signEOTS tiny_n tiny_getPublicKey sha256_stub (Bytes [3]) (Bytes [5]) (Some (Bytes [3]))
      = Inl LibraryError"
    using signEOTS_nonce_check_and_s [OF prime_order_tiny_n, of sha256_stub "Bytes [3]" "Bytes [5]"
        "Some (Bytes [3])" tiny_getPublicKey LibraryError P]
    unfolding k b using tiny_point_3 by (simp add: tiny_n_def)
  have "\<exists>kInv. modInverse 2 tiny_n = Inr kInv \<and>
      signEOTS tiny_n tiny_getPublicKey sha256_stub (Bytes [3]) (Bytes [5]) (Some (Bytes [2])) =
        (let s = (kInv * (5 + 31 * 3)) mod tiny_n
         in if s = 0 then Inl SignatureSZero
            else Inr \<lparr>sig_r = replicate 31 0 @ [31], sig_s = numberToBytes s 32\<rparr>)"
    using signEOTS_nonce_check_and_s [OF prime_order_tiny_n, of sha256_stub "Bytes [3]" "Bytes [5]"
        "Some (Bytes [2])" tiny_getPublicKey LibraryError P]
    unfolding k b sl r using pt by (auto simp: tiny_n_def)
  then have "signEOTS tiny_n tiny_getPublicKey sha256_stub (Bytes [3]) (Bytes [5]) (Some (Bytes [2])) =
        (let s = (70 * (5 + 31 * 3)) mod tiny_n
         in if s = 0 then Inl SignatureSZero
            else Inr \<lparr>sig_r = replicate 31 0 @ [31], sig_s = numberToBytes s 32\<rparr>)"
    unfolding modInverse_2_tiny_n by auto
  then have 4: "signEOTS tiny_n tiny_getPublicKey sha256_stub (Bytes [3]) (Bytes [5]) (Some (Bytes [2]))
     = Inr \<lparr>sig_r = replicate 31 0 @ [31], sig_s = replicate 31 0 @ [49]\<rparr>"
    by (simp add: tiny_n_def numberToBytes_49)
  from prime_order_tiny_n 1 2 3 4 show ?thesis by blast
qed

section \<open>The derived nonce\<close>

text \<open>
  Claim C9: \<open>signEOTS\<close> reads nothing but its arguments and the library's functions, so the
  signature it returns without a nonce is a function of the bytes of the private key and of the
  digest: a second call, also one that passes the same bytes in the other representation,
  returns the same result. The nonce it uses is \<open>k = sha256 (privateKey bytes \<parallel> digest bytes)\<close>,
  of 32 bytes as the hash returns them: the call without a nonce is the call with the explicit
  nonce \<open>k\<close>; it fails with the invalid-nonce error when \<open>k\<close> is 0 or \<open>\<ge> n\<close>, it passes \<open>k\<close> to
  the library's point multiplication and fails with the library's error if that throws, and
  otherwise \<open>r\<close> is the x-coordinate of \<open>k\<cdot>G\<close> and \<open>s\<close> is
  \<open>k\<^sup>-\<^sup>1 \<cdot> (digest + r \<cdot> privateKey) mod n\<close> for the inverse \<open>k\<^sup>-\<^sup>1\<close> of \<open>k\<close>, so that
  \<open>s \<cdot> k = digest + r \<cdot> privateKey\<close> modulo \<open>n\<close>. The order \<open>n\<close> is a prime that fits 32 bytes.
\<close>

theorem signEOTS_derived_nonce:
  fixes CURVE_n :: int and sha256 :: "byte list \<Rightarrow> byte list"
    and privateKey messageHash privateKey' messageHash' :: bytes_or_hex
  assumes "prime_order CURVE_n"
    and "length (sha256 (toBytes privateKey @ toBytes messageHash)) = 32"
  defines "k \<equiv> sha256 (toBytes privateKey @ toBytes messageHash)"
  shows "signEOTS_nonce sha256 (toBytes privateKey) (toBytes messageHash) None = k \<and>
         length k = 32 \<and>
         signEOTS CURVE_n getPublicKeySecp sha256 privateKey messageHash None =
           signEOTS CURVE_n getPublicKeySecp sha256 privateKey messageHash (Some (Bytes k)) \<and>
         (toBytes privateKey' = toBytes privateKey \<and> toBytes messageHash' = toBytes messageHash \<longrightarrow>
            signEOTS CURVE_n getPublicKeySecp sha256 privateKey' messageHash' None =
              signEOTS CURVE_n getPublicKeySecp sha256 privateKey messageHash None) \<and>
         (bytesToNumber k = 0 \<or> bytesToNumber k \<ge> CURVE_n \<longrightarrow>
            signEOTS CURVE_n getPublicKeySecp sha256 privateKey messageHash None = Inl InvalidNonce) \<and>
         (0 < bytesToNumber k \<and> bytesToNumber k < CURVE_n \<and>
          getPublicKeySecp k False = Inl e \<longrightarrow>
            signEOTS CURVE_n getPublicKeySecp sha256 privateKey messageHash None = Inl e) \<and>
         (0 < bytesToNumber k \<and> bytesToNumber k < CURVE_n \<and>
          getPublicKeySecp k False = Inr kPoint \<longrightarrow>
            (\<exists>kInv. modInverse (bytesToNumber k) CURVE_n = Inr kInv \<and>
               (kInv * bytesToNumber k) mod CURVE_n = 1 \<and>
               signEOTS CURVE_n getPublicKeySecp sha256 privateKey messageHash None =
                 (let s = (kInv * (bytesToNumber (toBytes messageHash) +
                            bytesToNumber (typedArraySlice kPoint 1 33) *
                            bytesToNumber (toBytes privateKey))) mod CURVE_n
                  in if s = 0 then Inl SignatureSZero
                     else Inr \<lparr>sig_r = typedArraySlice kPoint 1 33, sig_s = numberToBytes s 32\<rparr>)) \<and>
            (\<forall>sg. signEOTS CURVE_n getPublicKeySecp sha256 privateKey messageHash None = Inr sg \<longrightarrow>
               sig_r sg = typedArraySlice kPoint 1 33 \<and> length (sig_s sg) = 32 \<and>
               (bytesToNumber (sig_s sg) * bytesToNumber k) mod CURVE_n =
                 (bytesToNumber (toBytes messageHash) +
                  bytesToNumber (sig_r sg) * bytesToNumber (toBytes privateKey)) mod CURVE_n))"
proof -
  note n = prime_orderD [OF assms(1)]
  have k: "k = signEOTS_nonce sha256 (toBytes privateKey) (toBytes messageHash) None"
    by (simp add: k_def signEOTS_nonce_def)
  have 1: "signEOTS_nonce sha256 (toBytes privateKey) (toBytes messageHash) None = k"
    using k by simp
  have 2: "length k = 32" using assms(2) by (simp add: k_def)
  have 3: "signEOTS CURVE_n getPublicKeySecp sha256 privateKey messageHash None =
           signEOTS CURVE_n getPublicKeySecp sha256 privateKey messageHash (Some (Bytes k))"
    by (simp add: signEOTS_def signEOTS_nonce_def Let_def k_def)
  have 4: "signEOTS CURVE_n getPublicKeySecp sha256 privateKey' messageHash' None =
      signEOTS CURVE_n getPublicKeySecp sha256 privateKey messageHash None"
    if "toBytes privateKey' = toBytes privateKey \<and> toBytes messageHash' = toBytes messageHash"
    using that by (simp add: signEOTS_def)
  have 5: "signEOTS CURVE_n getPublicKeySecp sha256 privateKey messageHash None = Inl InvalidNonce"
    if "bytesToNumber k = 0 \<or> bytesToNumber k \<ge> CURVE_n"
    using that by (auto simp: signEOTS_def Let_def k)
  have 6: "signEOTS CURVE_n getPublicKeySecp sha256 privateKey messageHash None = Inl e"
    if "0 < bytesToNumber k \<and> bytesToNumber k < CURVE_n \<and> getPublicKeySecp k False = Inl e"
    using that by (simp add: signEOTS_def Let_def k [symmetric])
  have 7: "(\<exists>kInv. modInverse (bytesToNumber k) CURVE_n = Inr kInv \<and>
               (kInv * bytesToNumber k) mod CURVE_n = 1 \<and>
               signEOTS CURVE_n getPublicKeySecp sha256 privateKey messageHash None =
                 (let s = (kInv * (bytesToNumber (toBytes messageHash) +
                            bytesToNumber (typedArraySlice kPoint 1 33) *
                            bytesToNumber (toBytes privateKey))) mod CURVE_n
                  in if s = 0 then Inl SignatureSZero
                     else Inr \<lparr>sig_r = typedArraySlice kPoint 1 33, sig_s = numberToBytes s 32\<rparr>)) \<and>
            (\<forall>sg. signEOTS CURVE_n getPublicKeySecp sha256 privateKey messageHash None = Inr sg \<longrightarrow>
               sig_r sg = typedArraySlice kPoint 1 33 \<and> length (sig_s sg) = 32 \<and>
               (bytesToNumber (sig_s sg) * bytesToNumber k) mod CURVE_n =
                 (bytesToNumber (toBytes messageHash) +
                  bytesToNumber (sig_r sg) * bytesToNumber (toBytes privateKey)) mod CURVE_n)"
    if a: "0 < bytesToNumber k \<and> bytesToNumber k < CURVE_n \<and> getPublicKeySecp k False = Inr kPoint"
  proof -
    define h x rNum where "h = bytesToNumber (toBytes messageHash)"
      and "x = bytesToNumber (toBytes privateKey)"
      and "rNum = bytesToNumber (typedArraySlice kPoint 1 33)"
    from a have cop: "coprime (bytesToNumber k) CURVE_n" by (intro n(4)) simp_all
    from a cop signEOTS_valid_nonce [where getPublicKeySecp = getPublicKeySecp, OF n(1) n(3) k]
    obtain kInv where inv: "modInverse (bytesToNumber k) CURVE_n = Inr kInv"
      and one: "(kInv * bytesToNumber k) mod CURVE_n = 1"
      and eq: "signEOTS CURVE_n getPublicKeySecp sha256 privateKey messageHash None =
        (let s = (kInv * (h + rNum * x)) mod CURVE_n
         in if s = 0 then Inl SignatureSZero
            else Inr \<lparr>sig_r = typedArraySlice kPoint 1 33, sig_s = numberToBytes s 32\<rparr>)"
      and enc: "length (numberToBytes ((kInv * (h + rNum * x)) mod CURVE_n) 32) = 32"
        "bytesToNumber (numberToBytes ((kInv * (h + rNum * x)) mod CURVE_n) 32) =
           (kInv * (h + rNum * x)) mod CURVE_n"
      unfolding h_def x_def rNum_def Let_def by blast
    have sk: "(((kInv * (h + rNum * x)) mod CURVE_n) * bytesToNumber k) mod CURVE_n =
        (h + rNum * x) mod CURVE_n"
    proof -
      have "(((kInv * (h + rNum * x)) mod CURVE_n) * bytesToNumber k) mod CURVE_n =
          ((kInv * (h + rNum * x)) * bytesToNumber k) mod CURVE_n"
        by (simp add: mod_mult_left_eq)
      also have "\<dots> = ((kInv * bytesToNumber k) * (h + rNum * x)) mod CURVE_n"
        by (simp add: ac_simps)
      also have "\<dots> = (((kInv * bytesToNumber k) mod CURVE_n) * (h + rNum * x)) mod CURVE_n"
        by (simp only: mod_mult_left_eq)
      also have "\<dots> = (h + rNum * x) mod CURVE_n" by (simp add: one)
      finally show ?thesis .
    qed
    have "sig_r sg = typedArraySlice kPoint 1 33 \<and> length (sig_s sg) = 32 \<and>
        (bytesToNumber (sig_s sg) * bytesToNumber k) mod CURVE_n =
          (h + bytesToNumber (sig_r sg) * x) mod CURVE_n"
      if "signEOTS CURVE_n getPublicKeySecp sha256 privateKey messageHash None = Inr sg" for sg
    proof -
      from that eq have sg: "sg = \<lparr>sig_r = typedArraySlice kPoint 1 33,
          sig_s = numberToBytes ((kInv * (h + rNum * x)) mod CURVE_n) 32\<rparr>"
        by (simp add: Let_def split: if_splits)
      show ?thesis
        unfolding sg using enc sk by (simp add: rNum_def)
    qed
    with inv one eq show ?thesis
      unfolding h_def x_def rNum_def by blast
  qed
  from 1 2 3 4 5 6 7 show ?thesis by blast
qed

lemma sha256_sum_1_1: "sha256_sum (toBytes (Bytes [1]) @ toBytes (Bytes [1])) = replicate 31 0 @ [2]"
  by (simp add: sha256_sum_def toBytes_def)

lemma tiny_point_2_32:
  "tiny_getPublicKey (replicate 31 0 @ [2]) False = Inr (4 # replicate 31 0 @ [31] @ replicate 31 0 @ [28])"
proof -
  have "bytesToNumber (replicate 31 0 @ [2]) = 2"
    by (simp only: bytesToNumber_replicate_0 bytesToNumber_single) simp
  then show ?thesis
    by (simp add: tiny_getPublicKey_def tiny_points_def)
qed

lemma numberToBytes_16: "numberToBytes 16 32 = replicate 31 0 @ [16]"
  by code_simp

lemma hexToBytes_01: "toBytes (Hex ''01'') = [1]" "toBytes (Bytes [1]) = [1]"
  by code_simp+

theorem signEOTS_derived_nonce_witness:
  "prime_order tiny_n \<and>
   length (sha256_sum (toBytes (Bytes [1]) @ toBytes (Bytes [1]))) = 32 \<and>
   signEOTS_nonce sha256_sum (toBytes (Bytes [1])) (toBytes (Bytes [1])) None = replicate 31 0 @ [2] \<and>
   signEOTS tiny_n tiny_getPublicKey sha256_sum (Bytes [1]) (Bytes [1]) None
     = Inr \<lparr>sig_r = replicate 31 0 @ [31], sig_s = replicate 31 0 @ [16]\<rparr> \<and>
   signEOTS tiny_n tiny_getPublicKey sha256_sum (Bytes [1]) (Bytes [1])
       (Some (Bytes (replicate 31 0 @ [2])))
     = Inr \<lparr>sig_r = replicate 31 0 @ [31], sig_s = replicate 31 0 @ [16]\<rparr> \<and>
   signEOTS tiny_n tiny_getPublicKey sha256_sum (Hex ''01'') (Hex ''01'') None
     = Inr \<lparr>sig_r = replicate 31 0 @ [31], sig_s = replicate 31 0 @ [16]\<rparr> \<and>
   (16 * 2) mod tiny_n = (1 + 31 * 1) mod tiny_n"
proof -
  define P :: "byte list" where "P = 4 # replicate 31 0 @ [31] @ replicate 31 0 @ [28]"
  define K :: "byte list" where "K = replicate 31 0 @ [2]"
  have len: "length (sha256_sum (toBytes (Bytes [1]) @ toBytes (Bytes [1]))) = 32"
    by (simp add: sha256_sum_def)
  have h: "sha256_sum (toBytes (Bytes [1]) @ toBytes (Bytes [1])) = K"
    unfolding K_def by (rule sha256_sum_1_1)
  have kn: "bytesToNumber K = 2"
    unfolding K_def by (simp only: bytesToNumber_replicate_0 bytesToNumber_single) simp
  have b: "bytesToNumber (toBytes (Bytes [1])) = 1"
    by (simp add: bytesToNumber_single toBytes_def)
  have sl: "typedArraySlice P 1 33 = replicate 31 0 @ [31]"
    unfolding P_def by (rule typedArraySlice_tiny)
  have r: "bytesToNumber (replicate 31 0 @ [31]) = 31"
    by (simp only: bytesToNumber_replicate_0 bytesToNumber_single) simp
  have pt: "tiny_getPublicKey K False = Inr P"
    unfolding P_def K_def by (rule tiny_point_2_32)
  have same: "toBytes (Hex ''01'') = toBytes (Bytes [1])"
    by (simp only: hexToBytes_01)
  note T = signEOTS_derived_nonce [of tiny_n sha256_sum "Bytes [1]" "Bytes [1]" tiny_getPublicKey
      "Hex ''01''" "Hex ''01''" LibraryError P, OF prime_order_tiny_n len, unfolded h kn b sl r]
  from T have 1: "signEOTS_nonce sha256_sum (toBytes (Bytes [1])) (toBytes (Bytes [1])) None = K"
    by blast
  from T pt have "\<exists>kInv. modInverse 2 tiny_n = Inr kInv \<and>
      signEOTS tiny_n tiny_getPublicKey sha256_sum (Bytes [1]) (Bytes [1]) None =
        (let s = (kInv * (1 + 31 * 1)) mod tiny_n
         in if s = 0 then Inl SignatureSZero
            else Inr \<lparr>sig_r = replicate 31 0 @ [31], sig_s = numberToBytes s 32\<rparr>)"
    by (auto simp: tiny_n_def)
  then have "signEOTS tiny_n tiny_getPublicKey sha256_sum (Bytes [1]) (Bytes [1]) None =
        (let s = (70 * (1 + 31 * 1)) mod tiny_n
         in if s = 0 then Inl SignatureSZero
            else Inr \<lparr>sig_r = replicate 31 0 @ [31], sig_s = numberToBytes s 32\<rparr>)"
    unfolding modInverse_2_tiny_n by auto
  then have 2: "signEOTS tiny_n tiny_getPublicKey sha256_sum (Bytes [1]) (Bytes [1]) None
     = Inr \<lparr>sig_r = replicate 31 0 @ [31], sig_s = replicate 31 0 @ [16]\<rparr>"
    by (simp add: tiny_n_def numberToBytes_16)
  from T 2 have 3: "signEOTS tiny_n tiny_getPublicKey sha256_sum (Bytes [1]) (Bytes [1]) (Some (Bytes K))
     = Inr \<lparr>sig_r = replicate 31 0 @ [31], sig_s = replicate 31 0 @ [16]\<rparr>"
    by simp
  from T same 2 have 4: "signEOTS tiny_n tiny_getPublicKey sha256_sum (Hex ''01'') (Hex ''01'') None
     = Inr \<lparr>sig_r = replicate 31 0 @ [31], sig_s = replicate 31 0 @ [16]\<rparr>"
    by simp
  have 5: "(16 * 2) mod tiny_n = (1 + 31 * 1) mod tiny_n" by simp
  from prime_order_tiny_n len 1 2 3 4 5 show ?thesis unfolding K_def by blast
qed

section \<open>The component r of a signature\<close>

text \<open>The point with the x-coordinate \<open>n\<close> is on secp256k1.\<close>

lemma point_x_n_on_curve:
  "(bytesToNumber y_at_x_n * bytesToNumber y_at_x_n) mod secp256k1_p =
   (secp256k1_n * secp256k1_n * secp256k1_n + 7) mod secp256k1_p"
proof -
  have "secp256k1_n * secp256k1_n * secp256k1_n + 7 =
      bytesToNumber y_at_x_n * bytesToNumber y_at_x_n +
      13407807929942597099574024998205846127329153240624656492843609923727042812266841306279544043437532817923760423390042943008211114107867057112609708335884028 * secp256k1_p"
    by (simp add: bytesToNumber_def y_at_x_n_def secp256k1_p_def secp256k1_n_def)
  then show ?thesis by simp
qed


lemma modInverse_2_secp256k1_n: "modInverse 2 secp256k1_n = Inr half_n"
  by code_simp

lemma half_n_range: "0 < half_n" "half_n < secp256k1_n"
  by (simp_all add: half_n_def secp256k1_n_def)

lemma typedArraySlice_point_x_n:
  "typedArraySlice (4 # secp256k1_n_bytes @ y_at_x_n) 1 33 = secp256k1_n_bytes"
  by (simp add: typedArraySlice_def secp256k1_n_bytes_def)

lemma signEOTS_x_n:
  assumes "0 < h" "h < 3"
  shows "signEOTS secp256k1_n getPublicKey_x_n sha256_stub (Bytes [1]) (Bytes [h]) (Some (Bytes [2]))
     = Inr \<lparr>sig_r = secp256k1_n_bytes,
            sig_s = numberToBytes ((half_n * uint h) mod secp256k1_n) 32\<rparr> \<and>
     (half_n * uint h) mod secp256k1_n \<noteq> 0"
proof -
  have k: "[2] = signEOTS_nonce sha256_stub (toBytes (Bytes [1])) (toBytes (Bytes [h])) (Some (Bytes [2]))"
    by (simp add: signEOTS_nonce_def)
  have n: "1 < secp256k1_n" "secp256k1_n < 256 ^ 32"
    by (rule secp256k1_n_gt_1, rule secp256k1_n_bound)
  have range: "0 < bytesToNumber [2]" "bytesToNumber [2] < secp256k1_n"
    using n(1) by (simp_all add: bytesToNumber_single secp256k1_n_def)
  have cop: "coprime (bytesToNumber [2]) secp256k1_n"
    by (simp add: bytesToNumber_single secp256k1_n_def)
  have pt: "getPublicKey_x_n [2] False = Inr (4 # secp256k1_n_bytes @ y_at_x_n)"
    by (simp add: getPublicKey_x_n_def)
  from signEOTS_valid_nonce [where getPublicKeySecp = getPublicKey_x_n, OF n k range cop pt]
  obtain kInv where kInv: "modInverse (bytesToNumber [2]) secp256k1_n = Inr kInv"
    and sg: "signEOTS secp256k1_n getPublicKey_x_n sha256_stub (Bytes [1]) (Bytes [h]) (Some (Bytes [2])) =
      (let s = (kInv * (bytesToNumber (toBytes (Bytes [h])) +
                 bytesToNumber (typedArraySlice (4 # secp256k1_n_bytes @ y_at_x_n) 1 33) *
                 bytesToNumber (toBytes (Bytes [1])))) mod secp256k1_n
       in if s = 0 then Inl SignatureSZero
          else Inr \<lparr>sig_r = typedArraySlice (4 # secp256k1_n_bytes @ y_at_x_n) 1 33,
                    sig_s = numberToBytes s 32\<rparr>)"
    by blast
  from kInv have kInv_eq: "kInv = half_n"
    by (simp add: bytesToNumber_single modInverse_2_secp256k1_n)
  have s: "(half_n * (uint h + secp256k1_n)) mod secp256k1_n = (half_n * uint h) mod secp256k1_n"
    by (simp add: algebra_simps)
  have "uint h = 1 \<or> uint h = 2" using assms by (auto simp: word_less_def)
  then have nz: "(half_n * uint h) mod secp256k1_n \<noteq> 0"
    by (auto simp: half_n_def secp256k1_n_def)
  from sg nz show ?thesis
    unfolding kInv_eq typedArraySlice_point_x_n bytesToNumber_secp256k1_n_bytes
    by (simp add: toBytes_def bytesToNumber_single s Let_def)
qed

text \<open>
  Claim C4: \<open>r\<close> is the x-coordinate of \<open>k\<cdot>G\<close> reduced into \<open>[0, n)\<close>, and signing fails
  when the reduced value is 0. The comment on line 97 of eots.ts says the same of \<open>r\<close>,
  \<open>(k * G).x mod n\<close>; the code takes the 32 bytes of the x-coordinate as they are and makes no
  check of them. At the point of secp256k1 whose x-coordinate is \<open>n\<close>, where the reduced value
  is 0, \<open>signEOTS\<close> returns a signature, and its \<open>r\<close> is \<open>n\<close>, not 0.
\<close>

theorem signEOTS_r_not_reduced:
  "signEOTS secp256k1_n getPublicKey_x_n sha256_stub (Bytes [1]) (Bytes [1]) (Some (Bytes [2]))
     = Inr \<lparr>sig_r = secp256k1_n_bytes, sig_s = numberToBytes half_n 32\<rparr> \<and>
   getPublicKey_x_n [2] False = Inr (4 # secp256k1_n_bytes @ y_at_x_n) \<and>
   bytesToNumber secp256k1_n_bytes = secp256k1_n \<and>
   secp256k1_n mod secp256k1_n = 0 \<and>
   secp256k1_n \<noteq> 0"
proof -
  have "half_n mod secp256k1_n = half_n" using half_n_range by simp
  with signEOTS_x_n [of 1] secp256k1_n_gt_1 show ?thesis
    by (simp add: bytesToNumber_secp256k1_n_bytes getPublicKey_x_n_def)
qed

section \<open>Recovery of the private key\<close>


lemma coprime_of_inverse:
  fixes n :: int
  assumes "(kInv * k) mod n = 1"
  shows "coprime kInv n"
proof (rule coprimeI)
  fix c assume "c dvd kInv" "c dvd n"
  then have "c dvd (kInv * k) mod n" by (simp add: dvd_mod)
  with assms show "is_unit c" by simp
qed

lemma extractPrivateKey_steps:
  assumes "0 < CURVE_n"
    and "bytesToNumber (sig_r sig1) = bytesToNumber (sig_r sig2)"
    and "bytesToNumber (sig_s sig1) \<noteq> bytesToNumber (sig_s sig2)"
    and "(bytesToNumber (sig_s sig1) - bytesToNumber (sig_s sig2)) mod CURVE_n \<noteq> 0"
    and "modInverse ((bytesToNumber (sig_s sig1) - bytesToNumber (sig_s sig2)) mod CURVE_n) CURVE_n
           = Inr sDiffInv"
    and "modInverse (bytesToNumber (sig_r sig1)) CURVE_n = Inr rInv"
  shows "extractPrivateKey CURVE_n sig1 sig2 hash1 hash2 =
    Inr (numberToBytes
      ((((bytesToNumber (sig_s sig1) *
          ((((bytesToNumber (toBytes hash1) - bytesToNumber (toBytes hash2)) mod CURVE_n) * sDiffInv)
             mod CURVE_n) - bytesToNumber (toBytes hash1)) mod CURVE_n) * rInv) mod CURVE_n) 32)"
  using assms by (simp add: extractPrivateKey_def Let_def mod_eots_pos)










section \<open>Hex strings of 63 characters\<close>

lemma hex_string_no_prefix:
  assumes "list_all isHexDigit hex"
  shows "take 2 hex \<noteq> ''0x''" "take 2 (c # hex) \<noteq> ''0x''"
proof -
  have x: "\<not> isHexDigit CHR ''x''" using isHexDigit_props(4) by blast
  show "take 2 hex \<noteq> ''0x''"
  proof
    assume "take 2 hex = ''0x''"
    then obtain rest where "hex = CHR ''0'' # CHR ''x'' # rest"
      by (cases hex; cases "tl hex") auto
    with assms x show False by simp
  qed
  show "take 2 (c # hex) \<noteq> ''0x''"
  proof
    assume "take 2 (c # hex) = ''0x''"
    then obtain rest where "hex = CHR ''x'' # rest"
      by (cases hex) (auto simp: numeral_2_eq_2)
    with assms x show False by simp
  qed
qed

lemma hexToBytes_odd:
  assumes "odd (length hex)" "list_all isHexDigit hex"
  shows "hexToBytes hex = hexToBytes (CHR ''0'' # hex)"
    and "length (hexToBytes hex) = (length hex + 1) div 2"
proof -
  note p = hex_string_no_prefix(1) [OF assms(2)]
    hex_string_no_prefix(2) [OF assms(2), of "CHR ''0''"]
  from assms(1) have m: "length hex mod 2 \<noteq> 0" "length (CHR ''0'' # hex) mod 2 = 0"
    by (simp_all add: odd_iff_mod_2_eq_one mod_Suc)
  have l: "hexToBytes hex = hexPairs (CHR ''0'' # hex)"
    using p(1) m(1) by (simp add: hexToBytes_def Let_def)
  have r: "hexToBytes (CHR ''0'' # hex) = hexPairs (CHR ''0'' # hex)"
    unfolding hexToBytes_def Let_def using p(2) m(2) by (simp only: if_False if_True simp_thms)
  from l r show "hexToBytes hex = hexToBytes (CHR ''0'' # hex)" by simp
  show "length (hexToBytes hex) = (length hex + 1) div 2"
    unfolding l by (simp add: length_hexPairs)
qed

lemma isValidHex_63: "length hex = 63 \<Longrightarrow> \<not> isValidHex hex (Some 32)"
  by (auto simp: isValidHex_def Let_def)

text \<open>
  Claim C8, amended: a key, digest or nonce given as a string of 63 hexadecimal characters is
  not rejected by \<open>signEOTS\<close>, \<open>verifyEOTS\<close> or \<open>extractPrivateKey\<close>: \<open>hexToBytes\<close> decodes
  it to the 32 bytes of the string with a \<open>0\<close> put before it, and each operation returns what
  it returns on that string of 64 characters. The check that rejects it is \<open>isValidHex\<close> with
  the expected length 32, which the caller of \<open>signEOTS\<close> makes.
\<close>

theorem hex63_not_rejected:
  assumes "length hex = 63" "list_all isHexDigit hex"
  shows "hexToBytes hex = hexToBytes (CHR ''0'' # hex) \<and>
         length (hexToBytes hex) = 32 \<and>
         signEOTS CURVE_n getPublicKeySecp sha256 (Hex hex) messageHash nonce =
           signEOTS CURVE_n getPublicKeySecp sha256 (Hex (CHR ''0'' # hex)) messageHash nonce \<and>
         signEOTS CURVE_n getPublicKeySecp sha256 privateKey (Hex hex) nonce =
           signEOTS CURVE_n getPublicKeySecp sha256 privateKey (Hex (CHR ''0'' # hex)) nonce \<and>
         signEOTS CURVE_n getPublicKeySecp sha256 privateKey messageHash (Some (Hex hex)) =
           signEOTS CURVE_n getPublicKeySecp sha256 privateKey messageHash
             (Some (Hex (CHR ''0'' # hex))) \<and>
         verifyEOTS CURVE_n verify publicKey (Hex hex) signature =
           verifyEOTS CURVE_n verify publicKey (Hex (CHR ''0'' # hex)) signature \<and>
         extractPrivateKey CURVE_n sig1 sig2 (Hex hex) hash2 =
           extractPrivateKey CURVE_n sig1 sig2 (Hex (CHR ''0'' # hex)) hash2 \<and>
         extractPrivateKey CURVE_n sig1 sig2 hash1 (Hex hex) =
           extractPrivateKey CURVE_n sig1 sig2 hash1 (Hex (CHR ''0'' # hex)) \<and>
         \<not> isValidHex hex (Some 32)"
proof -
  have odd: "odd (length hex)" using assms(1) by simp
  have eq: "hexToBytes hex = hexToBytes (CHR ''0'' # hex)"
    by (rule hexToBytes_odd(1) [OF odd assms(2)])
  have len: "length (hexToBytes hex) = 32"
    using hexToBytes_odd(2) [OF odd assms(2)] assms(1) by simp
  have tb: "toBytes (Hex hex) = toBytes (Hex (CHR ''0'' # hex))"
    by (simp add: toBytes_def eq)
  have ne: "hex \<noteq> []" using assms(1) by auto
  have nonce: "signEOTS_nonce sha256 a b (Some (Hex hex)) =
      signEOTS_nonce sha256 a b (Some (Hex (CHR ''0'' # hex)))" for a b
    using ne by (simp add: signEOTS_nonce_def eq)
  show ?thesis
    unfolding signEOTS_def verifyEOTS_def verifyEOTS_try_def extractPrivateKey_def tb nonce
    using eq len isValidHex_63 [OF assms(1)] by simp
qed

lemma hex63_facts:
  "length hex63_2 = 63" "length hex63_3 = 63" "length hex63_5 = 63"
  "list_all isHexDigit hex63_2" "list_all isHexDigit hex63_3" "list_all isHexDigit hex63_5"
  by (simp_all add: hex63_2_def hex63_3_def hex63_5_def isHexDigit_def hexDigitVal_def)

lemma hexToBytes_hex63_5: "hexToBytes hex63_5 = replicate 31 0 @ [5]"
  by code_simp

lemma hexToBytes_hex63_3: "hexToBytes hex63_3 = replicate 31 0 @ [3]"
  by code_simp

lemma tiny_sign_hex63:
  "signEOTS tiny_n tiny_getPublicKey sha256_stub (Hex hex63_3) (Hex hex63_5) (Some (Hex hex63_2))
     = Inr \<lparr>sig_r = replicate 31 0 @ [31], sig_s = replicate 31 0 @ [49]\<rparr>"
  by code_simp

lemma modInverse_1_secp256k1_n: "modInverse 1 secp256k1_n = Inr 1"
  by code_simp

lemma extract_hex63:
  "extractPrivateKey secp256k1_n \<lparr>sig_r = [1], sig_s = [2]\<rparr> \<lparr>sig_r = [1], sig_s = [1]\<rparr>
     (Hex hex63_5) (Hex hex63_3) = Inr (numberToBytes (secp256k1_n - 1) 32)"
proof -
  have n: "0 < secp256k1_n" using secp256k1_n_gt_1 by simp
  have one: "(1::int) mod secp256k1_n = 1" using secp256k1_n_gt_1 by simp
  have v: "bytesToNumber (toBytes (Hex hex63_5)) = 5" "bytesToNumber (toBytes (Hex hex63_3)) = 3"
    by (simp_all only: toBytes_def bytes_or_hex.case hexToBytes_hex63_5 hexToBytes_hex63_3
        bytesToNumber_replicate_0 bytesToNumber_single) simp_all
  have "extractPrivateKey secp256k1_n \<lparr>sig_r = [1], sig_s = [2]\<rparr> \<lparr>sig_r = [1], sig_s = [1]\<rparr>
     (Hex hex63_5) (Hex hex63_3) =
     Inr (numberToBytes ((((2 * ((((5 - 3) mod secp256k1_n) * 1) mod secp256k1_n) - 5)
        mod secp256k1_n) * 1) mod secp256k1_n) 32)"
    using extractPrivateKey_steps [OF n, of "\<lparr>sig_r = [1], sig_s = [2]\<rparr>"
        "\<lparr>sig_r = [1], sig_s = [1]\<rparr>" 1 1 "Hex hex63_5" "Hex hex63_3"]
    unfolding v by (simp add: bytesToNumber_single one modInverse_1_secp256k1_n)
  also have "(((2 * ((((5 - 3) mod secp256k1_n) * 1) mod secp256k1_n) - 5)
        mod secp256k1_n) * 1) mod secp256k1_n = secp256k1_n - 1"
    by (simp add: secp256k1_n_def)
  finally show ?thesis .
qed

text \<open>
  Claim C8 says that a key, digest or nonce given as a hex string of 63 characters is rejected
  before any arithmetic. \<open>hexToBytes\<close> puts a \<open>0\<close> before a string of odd length and decodes
  it: \<open>signEOTS\<close> with a key, a digest and a nonce of 63 characters returns a signature, and
  \<open>extractPrivateKey\<close> with two digests of 63 characters returns a key.
\<close>

theorem hex63_rejected_counterexample:
  "length hex63_2 = 63 \<and> length hex63_3 = 63 \<and> length hex63_5 = 63 \<and>
   hexToBytes hex63_5 = replicate 31 0 @ [5] \<and>
   signEOTS tiny_n tiny_getPublicKey sha256_stub (Hex hex63_3) (Hex hex63_5) (Some (Hex hex63_2))
     = Inr \<lparr>sig_r = replicate 31 0 @ [31], sig_s = replicate 31 0 @ [49]\<rparr> \<and>
   extractPrivateKey secp256k1_n \<lparr>sig_r = [1], sig_s = [2]\<rparr> \<lparr>sig_r = [1], sig_s = [1]\<rparr>
     (Hex hex63_5) (Hex hex63_3) = Inr (numberToBytes (secp256k1_n - 1) 32)"
  using hex63_facts(1-3) hexToBytes_hex63_5 tiny_sign_hex63 extract_hex63 by blast

theorem hex63_not_rejected_witness:
  "length hex63_5 = 63 \<and> list_all isHexDigit hex63_5 \<and>
   hexToBytes hex63_5 = hexToBytes (CHR ''0'' # hex63_5) \<and>
   length (hexToBytes hex63_5) = 32 \<and>
   signEOTS tiny_n tiny_getPublicKey sha256_stub (Bytes [3]) (Hex hex63_5) (Some (Bytes [2])) =
     signEOTS tiny_n tiny_getPublicKey sha256_stub (Bytes [3]) (Hex (CHR ''0'' # hex63_5))
       (Some (Bytes [2])) \<and>
   \<not> isValidHex hex63_5 (Some 32)"
  using hex63_not_rejected [OF hex63_facts(3) hex63_facts(6), of tiny_n tiny_getPublicKey
      sha256_stub "Bytes [3]" "Some (Bytes [2])" "Bytes [3]" verify_accepts "Bytes []"
      "\<lparr>sig_r = [1], sig_s = [1]\<rparr>" "\<lparr>sig_r = [1], sig_s = [1]\<rparr>"
      "\<lparr>sig_r = [1], sig_s = [1]\<rparr>" "Bytes []" "Bytes []"]
    hex63_facts(3) hex63_facts(6)
  by blast

end
